theory Spec2Isabelle
  imports Complex_Main "HOL-Library.Multiset"
begin

section \<open>Numbers, dates and host functions\<close>

text \<open>
  The repository is TypeScript. A \<^verbatim>\<open>number\<close> of the source is an IEEE 754 binary64 value. The
  model writes a finite one as the \<^typ>\<open>real\<close> it denotes, and every operation of the source
  that rounds (\<^verbatim>\<open>+\<close>, \<^verbatim>\<open>-\<close>, \<^verbatim>\<open>*\<close>, \<^verbatim>\<open>/\<close>, \<^verbatim>\<open>Math.sqrt\<close>, \<^verbatim>\<open>Math.pow(x, 2)\<close>) as the exact
  operation followed by \<open>b64\<close>, the rounding to the nearest binary64 value, ties to even.
  Lengths and counters are \<^typ>\<open>nat\<close>, and a \<^verbatim>\<open>Date\<close> is the integer number of milliseconds
  since the epoch that \<^verbatim>\<open>getTime()\<close> returns. \<^verbatim>\<open>Math.pow(x, 2)\<close>, whose precision the language
  leaves to the implementation, is taken as the rounded square. The exponent range is not
  bounded above: overflow to an infinity is outside the model. \<^verbatim>\<open>NaN\<close> and the infinities are written as
  \<open>None\<close> in the places where they arise from a division by zero.

  Three computations are written with exact arithmetic: the index \<open>floor (n * p)\<close> of a
  percentile, the running position of the position-size stage and the differences of
  \<open>compareScenarios\<close>.

  Record fields carry a prefix naming their interface (\<open>fill_\<close>, \<open>cancel_\<close>, \<open>reject_\<close>,
  \<open>lm_\<close>, \<open>sm_\<close>, \<open>an_\<close>, \<open>sc_\<close>, \<open>point_\<close>) because several interfaces of the source share
  the field names \<^verbatim>\<open>id\<close>, \<^verbatim>\<open>timestamp\<close> and \<^verbatim>\<open>strategy_id\<close>.
\<close>

subsection \<open>Binary64 arithmetic\<close>

text \<open>Rounding a real to the nearest integer, a tie going to the even one.\<close>

definition round_even :: "real \<Rightarrow> int" where
  "round_even y =
     (if y - of_int \<lfloor>y\<rfloor> < 1 / 2 then \<lfloor>y\<rfloor>
      else if y - of_int \<lfloor>y\<rfloor> > 1 / 2 then \<lfloor>y\<rfloor> + 1
      else if even \<lfloor>y\<rfloor> then \<lfloor>y\<rfloor> else \<lfloor>y\<rfloor> + 1)"

text \<open>
  The exponent of the unit in the last place of \<open>x\<close>: 52 below the binary exponent of \<open>x\<close>, and
  \<open>- 1074\<close> for the subnormal numbers. \<open>b64 x\<close> is the multiple of that unit nearest to \<open>x\<close>.
\<close>

definition ulp_exponent :: "real \<Rightarrow> int" where
  "ulp_exponent x = max \<lfloor>log 2 \<bar>x\<bar>\<rfloor> (- 1022) - 52"

definition b64 :: "real \<Rightarrow> real" where
  "b64 x = (if x = 0 then 0
            else of_int (round_even (x / 2 powi ulp_exponent x)) * 2 powi ulp_exponent x)"

definition fadd :: "real \<Rightarrow> real \<Rightarrow> real" where
  "fadd a b = b64 (a + b)"

definition fsub :: "real \<Rightarrow> real \<Rightarrow> real" where
  "fsub a b = b64 (a - b)"

definition fmul :: "real \<Rightarrow> real \<Rightarrow> real" where
  "fmul a b = b64 (a * b)"

text \<open>The quotient by a denominator that is not zero.\<close>

definition fdiv :: "real \<Rightarrow> real \<Rightarrow> real" where
  "fdiv a b = b64 (a / b)"

definition fsqrt :: "real \<Rightarrow> real" where
  "fsqrt a = b64 (sqrt a)"

text \<open>\<^verbatim>\<open>Math.pow(x, 2)\<close>, taken as the rounded square.\<close>

definition fpow2 :: "real \<Rightarrow> real" where
  "fpow2 x = b64 (x * x)"

text \<open>\<^verbatim>\<open>array.reduce((sum, val) => sum + val, 0)\<close>\<close>

definition fsum :: "real list \<Rightarrow> real" where
  "fsum xs = foldl (\<lambda>sum val. fadd sum val) 0 xs"

subsection \<open>Values, slices and maps of the host\<close>

type_synonym date = int

text \<open>\<^verbatim>\<open>x || 1\<close> on numbers: the left operand unless it is falsy, that is, zero.\<close>

definition or_one :: "real \<Rightarrow> real" where
  "or_one x = (if x = 0 then 1 else x)"

text \<open>
  A division whose denominator the source does not guard. \<open>None\<close> stands for the result of
  a division by zero, which is \<^verbatim>\<open>NaN\<close> or an infinity in the source.
\<close>

definition js_div :: "real \<Rightarrow> real \<Rightarrow> real option" where
  "js_div a b = (if b = 0 then None else Some (fdiv a b))"

text \<open>
  A condition \<^verbatim>\<open>if (parameters.field)\<close> on an optional number: an absent field
  (\<^verbatim>\<open>undefined\<close>) and the number zero are falsy, every other number is truthy.
\<close>

definition truthy :: "real option \<Rightarrow> bool" where
  "truthy p = (case p of None \<Rightarrow> False | Some v \<Rightarrow> v \<noteq> 0)"

text \<open>\<^verbatim>\<open>Array.prototype.slice(start, end)\<close>: a negative index counts from the end.\<close>

definition rel_index :: "int \<Rightarrow> nat \<Rightarrow> nat" where
  "rel_index i n = (if i < 0 then nat (max (int n + i) 0) else min (nat i) n)"

definition slice :: "int \<Rightarrow> int \<Rightarrow> 'a list \<Rightarrow> 'a list" where
  "slice s e xs =
     (let a = rel_index s (length xs); b = rel_index e (length xs)
      in take (b - a) (drop a xs))"

text \<open>
  A \<^verbatim>\<open>Map\<close> of the source keeps its entries in insertion order, and
  \<^verbatim>\<open>Array.from(map.entries())\<close> reads them in that order: the model is an association list.
  \<open>map_set\<close> overwrites the value of a key already present, in place, and appends a new key.
\<close>

fun map_set :: "'k \<Rightarrow> 'v \<Rightarrow> ('k \<times> 'v) list \<Rightarrow> ('k \<times> 'v) list" where
  "map_set k v [] = [(k, v)]"
| "map_set k v ((k', v') # m) = (if k = k' then (k, v) # m else (k', v') # map_set k v m)"

definition map_has :: "('k \<times> 'v) list \<Rightarrow> 'k \<Rightarrow> bool" where
  "map_has m k = (map_of m k \<noteq> None)"

definition map_get :: "('k \<times> 'v) list \<Rightarrow> 'k \<Rightarrow> 'v" where
  "map_get m k = the (map_of m k)"

section \<open>Event model (lib/types.ts)\<close>

datatype side = Buy | Sell

record fill =
  fill_id :: string
  fill_timestamp :: date
  fill_strategy_id :: string
  fill_symbol :: string
  fill_side :: side
  fill_quantity :: real
  fill_price :: real
  fill_venue :: string
  fill_latency_ms :: real
  fill_order_id :: string

record cancel =
  cancel_id :: string
  cancel_timestamp :: date
  cancel_strategy_id :: string
  cancel_symbol :: string
  cancel_order_id :: string
  cancel_reason :: string
  cancel_latency_ms :: real

record reject =
  reject_id :: string
  reject_timestamp :: date
  reject_strategy_id :: string
  reject_symbol :: string
  reject_order_id :: string
  reject_reason :: string
  reject_error_code :: string

datatype metric_type = Order_to_fill | Market_data | Signal_to_order

record latency_metric =
  lm_id :: string
  lm_timestamp :: date
  lm_strategy_id :: string
  lm_metric_type :: metric_type
  lm_latency_ms :: real
  lm_percentile_50 :: "real option"
  lm_percentile_95 :: "real option"
  lm_percentile_99 :: "real option"

record strategy_metrics =
  sm_strategy_id :: string
  sm_date :: string
  total_fills :: nat
  total_cancels :: nat
  total_rejects :: nat
  fill_rate :: real
  cancel_rate :: real
  reject_rate :: real
  avg_latency_ms :: real
  p95_latency_ms :: real
  p99_latency_ms :: real
  total_volume :: real
  total_pnl :: real

section \<open>MetricsCalculator (lib/metrics/calculator.ts)\<close>

record time_series_point =
  point_timestamp :: date
  point_value :: real

record performance_metrics =
  fillRate :: real
  cancelRate :: real
  rejectRate :: real
  avgLatency :: real
  p50Latency :: real
  p95Latency :: real
  p99Latency :: real
  totalVolume :: real
  totalPnl :: real
  sharpeRatio :: real
  maxDrawdown :: real

record latency_stats =
  p50 :: real
  p95 :: real
  p99 :: real
  avg :: real

text \<open>
  \<^verbatim>\<open>Math.floor(t.getTime() / (intervalMinutes * 60 * 1000))\<close>, for a whole number of minutes
  other than zero (\<open>div\<close> on \<^typ>\<open>int\<close> rounds down, as \<^verbatim>\<open>Math.floor\<close> does). For a width of
  zero the source computes an infinite or undefined key and an invalid date; statements
  about a series of arbitrary width assume a positive width.
\<close>

definition windowKey :: "int \<Rightarrow> date \<Rightarrow> int" where
  "windowKey intervalMinutes t = t div (intervalMinutes * 60 * 1000)"

definition windowStart :: "int \<Rightarrow> int \<Rightarrow> date" where
  "windowStart intervalMinutes key = key * intervalMinutes * 60 * 1000"

subsection \<open>calculateLatencyPercentiles\<close>

text \<open>
  \<^verbatim>\<open>getPercentile\<close>: the element of the ascending latencies at \<^verbatim>\<open>Math.floor(length * p)\<close>,
  at most the last index. The index is in range whenever \<open>0 \<le> p\<close> and the list is not empty.
\<close>

definition getPercentile :: "real list \<Rightarrow> real \<Rightarrow> real" where
  "getPercentile latencies p =
     latencies ! min (nat \<lfloor>real (length latencies) * p\<rfloor>) (length latencies - 1)"

definition calculateLatencyPercentiles :: "latency_metric list \<Rightarrow> latency_stats" where
  "calculateLatencyPercentiles metrics =
     (if length metrics = 0 then \<lparr>p50 = 0, p95 = 0, p99 = 0, avg = 0\<rparr>
      else
        let latencies = sort (map lm_latency_ms metrics);
            average = fdiv (fsum latencies) (real (length latencies))
        in \<lparr>p50 = getPercentile latencies (5 / 10),
            p95 = getPercentile latencies (95 / 100),
            p99 = getPercentile latencies (99 / 100),
            avg = average\<rparr>)"

subsection \<open>Time series\<close>

record rate_window =
  rw_fills :: nat
  rw_total :: nat

datatype event_type = Fill_event | Cancel_event | Reject_event

definition fillRate_step ::
  "int \<Rightarrow> (int \<times> rate_window) list \<Rightarrow> date \<times> event_type \<Rightarrow> (int \<times> rate_window) list" where
  "fillRate_step intervalMinutes windows event =
     (let key = windowKey intervalMinutes (fst event);
          windows1 = (if \<not> map_has windows key
                      then map_set key \<lparr>rw_fills = 0, rw_total = 0\<rparr> windows else windows);
          window = map_get windows1 key;
          window1 = window\<lparr>rw_total := rw_total window + 1\<rparr>;
          window2 = (if snd event = Fill_event
                     then window1\<lparr>rw_fills := rw_fills window1 + 1\<rparr> else window1)
      in map_set key window2 windows1)"

definition calculateFillRateTimeSeries ::
  "fill list \<Rightarrow> cancel list \<Rightarrow> reject list \<Rightarrow> int \<Rightarrow> time_series_point list" where
  "calculateFillRateTimeSeries fills cancels rejects intervalMinutes =
     (let allEvents = sort_key fst
            (map (\<lambda>f. (fill_timestamp f, Fill_event)) fills @
             map (\<lambda>c. (cancel_timestamp c, Cancel_event)) cancels @
             map (\<lambda>r. (reject_timestamp r, Reject_event)) rejects);
          windows = foldl (fillRate_step intervalMinutes) [] allEvents
      in sort_key point_timestamp
           (map (\<lambda>(key, w).
                   \<lparr>point_timestamp = windowStart intervalMinutes key,
                    point_value = (if rw_total w > 0
                                   then fdiv (real (rw_fills w)) (real (rw_total w)) else 0)\<rparr>)
              windows))"

definition latency_step ::
  "int \<Rightarrow> (int \<times> real list) list \<Rightarrow> latency_metric \<Rightarrow> (int \<times> real list) list" where
  "latency_step intervalMinutes windows metric =
     (let key = windowKey intervalMinutes (lm_timestamp metric);
          windows1 = (if \<not> map_has windows key then map_set key [] windows else windows)
      in map_set key (map_get windows1 key @ [lm_latency_ms metric]) windows1)"

definition calculateLatencyTimeSeries :: "latency_metric list \<Rightarrow> int \<Rightarrow> time_series_point list" where
  "calculateLatencyTimeSeries metrics intervalMinutes =
     (let windows = foldl (latency_step intervalMinutes) [] metrics
      in sort_key point_timestamp
           (map (\<lambda>(key, latencies).
                   \<lparr>point_timestamp = windowStart intervalMinutes key,
                    point_value = fdiv (fsum latencies) (real (length latencies))\<rparr>)
              windows))"

definition volume_step :: "int \<Rightarrow> (int \<times> real) list \<Rightarrow> fill \<Rightarrow> (int \<times> real) list" where
  "volume_step intervalMinutes windows f =
     (let key = windowKey intervalMinutes (fill_timestamp f);
          windows1 = (if \<not> map_has windows key then map_set key 0 windows else windows)
      in map_set key (fadd (map_get windows1 key) (fill_quantity f)) windows1)"

definition calculateVolumeTimeSeries :: "fill list \<Rightarrow> int \<Rightarrow> time_series_point list" where
  "calculateVolumeTimeSeries fills intervalMinutes =
     (let windows = foldl (volume_step intervalMinutes) [] fills
      in sort_key point_timestamp
           (map (\<lambda>(key, volume).
                   \<lparr>point_timestamp = windowStart intervalMinutes key, point_value = volume\<rparr>)
              windows))"

definition fill_pnl :: "fill \<Rightarrow> real" where
  "fill_pnl f =
     fmul (fmul (if fill_side f = Buy then - 1 else 1) (fill_quantity f)) (fill_price f)"

definition pnl_step :: "int \<Rightarrow> (int \<times> real) list \<Rightarrow> fill \<Rightarrow> (int \<times> real) list" where
  "pnl_step intervalMinutes windows f =
     (let key = windowKey intervalMinutes (fill_timestamp f);
          windows1 = (if \<not> map_has windows key then map_set key 0 windows else windows)
      in map_set key (fadd (map_get windows1 key) (fill_pnl f)) windows1)"

text \<open>The \<^verbatim>\<open>map\<close> with the running variable \<^verbatim>\<open>cumulative\<close>.\<close>

fun cumulate :: "int \<Rightarrow> real \<Rightarrow> (int \<times> real) list \<Rightarrow> time_series_point list" where
  "cumulate intervalMinutes cumulative [] = []"
| "cumulate intervalMinutes cumulative ((key, pnl) # rest) =
     \<lparr>point_timestamp = windowStart intervalMinutes key,
      point_value = fadd cumulative pnl\<rparr>
       # cumulate intervalMinutes (fadd cumulative pnl) rest"

definition calculatePnLTimeSeries :: "fill list \<Rightarrow> int \<Rightarrow> time_series_point list" where
  "calculatePnLTimeSeries fills intervalMinutes =
     cumulate intervalMinutes 0 (sort_key fst (foldl (pnl_step intervalMinutes) [] fills))"

subsection \<open>Sharpe ratio and maximum drawdown\<close>

definition sharpe_returns :: "time_series_point list \<Rightarrow> real list" where
  "sharpe_returns pnlSeries =
     map (\<lambda>i. fdiv (fsub (point_value (pnlSeries ! i)) (point_value (pnlSeries ! (i - 1))))
                    \<bar>or_one (point_value (pnlSeries ! (i - 1)))\<bar>)
         [1 ..< length pnlSeries]"

definition calculateSharpeRatio :: "time_series_point list \<Rightarrow> real \<Rightarrow> real" where
  "calculateSharpeRatio pnlSeries riskFreeRate =
     (if length pnlSeries < 2 then 0
      else
        let returns = sharpe_returns pnlSeries in
        if length returns = 0 then 0
        else
          let avgReturn = fdiv (fsum returns) (real (length returns));
              variance = fdiv (foldl (\<lambda>sum r. fadd sum (fpow2 (fsub r avgReturn))) 0 returns)
                           (real (length returns));
              stdDev = fsqrt variance
          in if stdDev = 0 then 0
             else fdiv (fsub avgReturn (fdiv riskFreeRate 252)) stdDev)"

definition drawdown_step :: "real \<times> real \<Rightarrow> time_series_point \<Rightarrow> real \<times> real" where
  "drawdown_step st point =
     (let maxDrawdown = fst st;
          peak = (if point_value point > snd st then point_value point else snd st);
          drawdown = fdiv (fsub peak (point_value point)) \<bar>or_one peak\<bar>
      in (max maxDrawdown drawdown, peak))"

definition calculateMaxDrawdown :: "time_series_point list \<Rightarrow> real" where
  "calculateMaxDrawdown pnlSeries =
     (if length pnlSeries = 0 then 0
      else fst (foldl drawdown_step (0, point_value (pnlSeries ! 0)) pnlSeries))"

subsection \<open>calculatePerformanceMetrics\<close>

definition calculatePerformanceMetrics ::
  "fill list \<Rightarrow> cancel list \<Rightarrow> reject list \<Rightarrow> latency_metric list \<Rightarrow> performance_metrics" where
  "calculatePerformanceMetrics fills cancels rejects latencyMetrics =
     (let totalOrders = length fills + length cancels + length rejects;
          fill_r = (if totalOrders > 0
                    then fdiv (real (length fills)) (real totalOrders) else 0);
          cancel_r = (if totalOrders > 0
                      then fdiv (real (length cancels)) (real totalOrders) else 0);
          reject_r = (if totalOrders > 0
                      then fdiv (real (length rejects)) (real totalOrders) else 0);
          latencyStats = calculateLatencyPercentiles latencyMetrics;
          volume = foldl (\<lambda>sum f. fadd sum (fill_quantity f)) 0 fills;
          pnlSeries = calculatePnLTimeSeries fills 60;
          pnl = (if length pnlSeries > 0
                 then point_value (pnlSeries ! (length pnlSeries - 1)) else 0)
      in \<lparr>fillRate = fill_r, cancelRate = cancel_r, rejectRate = reject_r,
          avgLatency = avg latencyStats,
          p50Latency = p50 latencyStats,
          p95Latency = p95 latencyStats,
          p99Latency = p99 latencyStats,
          totalVolume = volume,
          totalPnl = pnl,
          sharpeRatio = calculateSharpeRatio pnlSeries (b64 (2 / 100)),
          maxDrawdown = calculateMaxDrawdown pnlSeries\<rparr>)"

subsection \<open>calculateStrategyMetrics\<close>

text \<open>
  What the source takes from its host: the clock (\<^verbatim>\<open>Date.now()\<close>, \<^verbatim>\<open>new Date()\<close>), the random
  generator (\<^verbatim>\<open>Math.random()\<close>) and the rendering of numbers and dates as text. The clock and
  the generator are a \<open>world\<close> threaded through every function that reads them: the
  \<open>n\<close>-th reading of the clock is \<open>clock w n\<close>, the \<open>n\<close>-th random number is \<open>rng w n\<close>, and
  the counters say how many were taken. The renderings are functions of their argument and
  are parameters of the model (\<open>host\<close>).
\<close>

record host =
  num_str :: "real \<Rightarrow> string"
  to_fixed :: "real \<Rightarrow> nat \<Rightarrow> string"
  radix36 :: "real \<Rightarrow> string"
  iso_string :: "date \<Rightarrow> string"

record world =
  clock :: "nat \<Rightarrow> date"
  rng :: "nat \<Rightarrow> real"
  reads :: nat
  draws :: nat

definition Date_now :: "world \<Rightarrow> date \<times> world" where
  "Date_now w = (clock w (reads w), w\<lparr>reads := reads w + 1\<rparr>)"

definition Math_random :: "world \<Rightarrow> real \<times> world" where
  "Math_random w = (rng w (draws w), w\<lparr>draws := draws w + 1\<rparr>)"

text \<open>\<^verbatim>\<open>Math.random().toString(36).substr(2, 9)\<close>\<close>

definition random_suffix :: "host \<Rightarrow> real \<Rightarrow> string" where
  "random_suffix h r = take 9 (drop 2 (radix36 h r))"

text \<open>\<^verbatim>\<open>new Date().toISOString().split("T")[0]\<close>\<close>

definition iso_day :: "host \<Rightarrow> date \<Rightarrow> string" where
  "iso_day h d = takeWhile (\<lambda>ch. ch \<noteq> CHR ''T'') (iso_string h d)"

definition calculateStrategyMetrics ::
  "host \<Rightarrow> world \<Rightarrow> string \<Rightarrow> fill list \<Rightarrow> cancel list \<Rightarrow> reject list \<Rightarrow> latency_metric list
   \<Rightarrow> strategy_metrics \<times> world" where
  "calculateStrategyMetrics h w strategyId fills cancels rejects latencyMetrics =
     (let strategyFills = filter (\<lambda>f. fill_strategy_id f = strategyId) fills;
          strategyCancels = filter (\<lambda>c. cancel_strategy_id c = strategyId) cancels;
          strategyRejects = filter (\<lambda>r. reject_strategy_id r = strategyId) rejects;
          strategyLatency = filter (\<lambda>m. lm_strategy_id m = strategyId) latencyMetrics;
          perf = calculatePerformanceMetrics strategyFills strategyCancels strategyRejects
                   strategyLatency;
          (today, w1) = Date_now w
      in (\<lparr>sm_strategy_id = strategyId,
           sm_date = iso_day h today,
           total_fills = length strategyFills,
           total_cancels = length strategyCancels,
           total_rejects = length strategyRejects,
           fill_rate = fillRate perf,
           cancel_rate = cancelRate perf,
           reject_rate = rejectRate perf,
           avg_latency_ms = avgLatency perf,
           p95_latency_ms = p95Latency perf,
           p99_latency_ms = p99Latency perf,
           total_volume = totalVolume perf,
           total_pnl = totalPnl perf\<rparr>, w1))"

section \<open>WhatIfSimulator (lib/whatif/simulator.ts)\<close>

record simulation_parameters =
  max_position_size :: "real option"
  order_timeout_ms :: "real option"
  min_fill_rate :: "real option"
  max_latency_ms :: "real option"
  risk_multiplier :: "real option"

record whatif_scenario =
  sc_id :: string
  sc_name :: string
  sc_strategy_id :: string
  parameters :: simulation_parameters
  projected_metrics :: strategy_metrics
  created_at :: date

subsection \<open>applyPositionSizeLimit\<close>

text \<open>
  The \<^verbatim>\<open>filter\<close> whose callback updates \<^verbatim>\<open>currentPosition\<close>: the fills are visited in the
  order of the array, and the position moves only when a fill is kept.
\<close>

fun position_filter :: "real \<Rightarrow> real \<Rightarrow> fill list \<Rightarrow> fill list" where
  "position_filter maxSize currentPosition [] = []"
| "position_filter maxSize currentPosition (f # rest) =
     (let positionChange = (if fill_side f = Buy then fill_quantity f else - fill_quantity f);
          newPosition = currentPosition + positionChange
      in if \<bar>newPosition\<bar> \<le> maxSize
         then f # position_filter maxSize newPosition rest
         else position_filter maxSize currentPosition rest)"

definition applyPositionSizeLimit :: "fill list \<Rightarrow> real \<Rightarrow> fill list" where
  "applyPositionSizeLimit fills maxSize = position_filter maxSize 0 fills"

subsection \<open>applyOrderTimeout and applyMaxLatency\<close>

definition applyOrderTimeout ::
  "fill list \<Rightarrow> cancel list \<Rightarrow> latency_metric list \<Rightarrow> real \<Rightarrow> fill list \<times> cancel list" where
  "applyOrderTimeout fills cancels latency timeoutMs =
     (let validFills = filter (\<lambda>f. fill_latency_ms f \<le> timeoutMs) fills;
          timedOutFills = filter (\<lambda>f. fill_latency_ms f > timeoutMs) fills;
          newCancels = map (\<lambda>f.
            \<lparr>cancel_id = ''cancel-timeout-'' @ fill_id f,
             cancel_timestamp = fill_timestamp f,
             cancel_strategy_id = fill_strategy_id f,
             cancel_symbol = fill_symbol f,
             cancel_order_id = fill_order_id f,
             cancel_reason = ''Timeout'',
             cancel_latency_ms = timeoutMs\<rparr>) timedOutFills
      in (validFills, cancels @ newCancels))"

definition applyMaxLatency ::
  "fill list \<Rightarrow> cancel list \<Rightarrow> latency_metric list \<Rightarrow> real \<Rightarrow> fill list \<times> cancel list" where
  "applyMaxLatency fills cancels latency maxLatencyMs =
     (let validFills = filter (\<lambda>f. fill_latency_ms f \<le> maxLatencyMs) fills;
          highLatencyFills = filter (\<lambda>f. fill_latency_ms f > maxLatencyMs) fills;
          newCancels = map (\<lambda>f.
            \<lparr>cancel_id = ''cancel-latency-'' @ fill_id f,
             cancel_timestamp = fill_timestamp f,
             cancel_strategy_id = fill_strategy_id f,
             cancel_symbol = fill_symbol f,
             cancel_order_id = fill_order_id f,
             cancel_reason = ''High latency'',
             cancel_latency_ms = fill_latency_ms f\<rparr>) highLatencyFills
      in (validFills, cancels @ newCancels))"

subsection \<open>applyMinFillRate\<close>

text \<open>
  The loop over \<^verbatim>\<open>cancels.slice(0, ordersToConvert)\<close>. Each converted cancel takes three
  random numbers, in the order of the object literal: side, quantity, price.
\<close>

fun convert_cancels ::
  "world \<Rightarrow> int \<Rightarrow> int \<Rightarrow> cancel list \<Rightarrow> fill list \<Rightarrow> fill list \<times> world" where
  "convert_cancels w ordersToConvert converted [] convertedFills = (convertedFills, w)"
| "convert_cancels w ordersToConvert converted (c # rest) convertedFills =
     (if converted \<ge> ordersToConvert then (convertedFills, w)
      else
        let (r1, w1) = Math_random w;
            (r2, w2) = Math_random w1;
            (r3, w3) = Math_random w2;
            f = \<lparr>fill_id = ''fill-converted-'' @ cancel_id c,
                 fill_timestamp = cancel_timestamp c,
                 fill_strategy_id = cancel_strategy_id c,
                 fill_symbol = cancel_symbol c,
                 fill_side = (if r1 > 5 / 10 then Buy else Sell),
                 fill_quantity = fadd (of_int \<lfloor>fmul r2 500\<rfloor>) 100,
                 fill_price = fadd (fmul r3 200) 50,
                 fill_venue = ''SIMULATED'',
                 fill_latency_ms = cancel_latency_ms c,
                 fill_order_id = cancel_order_id c\<rparr>
        in convert_cancels w3 ordersToConvert (converted + 1) rest (convertedFills @ [f]))"

text \<open>
  \<^verbatim>\<open>fills.length / totalOrders\<close> has no guard: with no order at all it is \<^verbatim>\<open>0 / 0\<close>, which is
  \<^verbatim>\<open>NaN\<close>, and \<^verbatim>\<open>NaN >= minFillRate\<close> is false.
\<close>

definition currentFillRate :: "fill list \<Rightarrow> cancel list \<Rightarrow> reject list \<Rightarrow> real option" where
  "currentFillRate fills cancels rejects =
     js_div (real (length fills)) (real (length fills + length cancels + length rejects))"

definition applyMinFillRate ::
  "world \<Rightarrow> fill list \<Rightarrow> cancel list \<Rightarrow> reject list \<Rightarrow> real
   \<Rightarrow> (fill list \<times> cancel list \<times> reject list) \<times> world" where
  "applyMinFillRate w fills cancels rejects minFillRate =
     (let totalOrders = length fills + length cancels + length rejects
      in if (case currentFillRate fills cancels rejects of
               None \<Rightarrow> False | Some rate \<Rightarrow> rate \<ge> minFillRate)
         then ((fills, cancels, rejects), w)
         else
           let targetFills = \<lceil>fmul (real totalOrders) minFillRate\<rceil>;
               ordersToConvert = targetFills - int (length fills);
               (convertedFills, w1) =
                 convert_cancels w ordersToConvert 0 (slice 0 ordersToConvert cancels) []
           in ((fills @ convertedFills,
                slice ordersToConvert (int (length cancels)) cancels,
                rejects), w1))"

subsection \<open>generateScenarioName\<close>

text \<open>\<^verbatim>\<open>parts.join(sep)\<close>\<close>

fun join :: "string \<Rightarrow> string list \<Rightarrow> string" where
  "join sep [] = []"
| "join sep [x] = x"
| "join sep (x # y # rest) = x @ sep @ join sep (y # rest)"

definition generateScenarioName :: "host \<Rightarrow> simulation_parameters \<Rightarrow> string" where
  "generateScenarioName h ps =
     (let parts =
            (if truthy (max_position_size ps)
             then [''MaxPos:'' @ num_str h (the (max_position_size ps))] else [])
          @ (if truthy (order_timeout_ms ps)
             then [''Timeout:'' @ num_str h (the (order_timeout_ms ps)) @ ''ms''] else [])
          @ (if truthy (min_fill_rate ps)
             then [''MinFill:'' @ to_fixed h (fmul (the (min_fill_rate ps)) 100) 0 @ ''%'']
             else [])
          @ (if truthy (max_latency_ms ps)
             then [''MaxLat:'' @ num_str h (the (max_latency_ms ps)) @ ''ms''] else [])
          @ (if truthy (risk_multiplier ps)
             then [''Risk:'' @ num_str h (the (risk_multiplier ps)) @ ''x''] else [])
      in if length parts > 0 then join '' | '' parts else ''Default Scenario'')"

subsection \<open>simulateScenario\<close>

definition simulateScenario ::
  "host \<Rightarrow> world \<Rightarrow> string \<Rightarrow> fill list \<Rightarrow> cancel list \<Rightarrow> reject list \<Rightarrow> latency_metric list
   \<Rightarrow> simulation_parameters \<Rightarrow> whatif_scenario \<times> world" where
  "simulateScenario h w strategyId fills cancels rejects latencyMetrics ps =
     (let strategyFills = filter (\<lambda>f. fill_strategy_id f = strategyId) fills;
          strategyCancels = filter (\<lambda>c. cancel_strategy_id c = strategyId) cancels;
          strategyRejects = filter (\<lambda>r. reject_strategy_id r = strategyId) rejects;
          strategyLatency = filter (\<lambda>m. lm_strategy_id m = strategyId) latencyMetrics;
          simulatedLatency = strategyLatency;
          fills1 = (if truthy (max_position_size ps)
                    then applyPositionSizeLimit strategyFills (the (max_position_size ps))
                    else strategyFills);
          (fills2, cancels2) =
             (if truthy (order_timeout_ms ps)
              then applyOrderTimeout fills1 strategyCancels simulatedLatency
                     (the (order_timeout_ms ps))
              else (fills1, strategyCancels));
          ((fills3, cancels3, rejects3), w3) =
             (if truthy (min_fill_rate ps)
              then applyMinFillRate w fills2 cancels2 strategyRejects (the (min_fill_rate ps))
              else ((fills2, cancels2, strategyRejects), w));
          (fills4, cancels4) =
             (if truthy (max_latency_ms ps)
              then applyMaxLatency fills3 cancels3 simulatedLatency (the (max_latency_ms ps))
              else (fills3, cancels3));
          (projectedMetrics, w4) =
             calculateStrategyMetrics h w3 strategyId fills4 cancels4 rejects3 simulatedLatency;
          projectedMetrics1 =
             (if truthy (risk_multiplier ps)
              then projectedMetrics
                     \<lparr>total_pnl := fmul (total_pnl projectedMetrics) (the (risk_multiplier ps)),
                      total_volume :=
                        fmul (total_volume projectedMetrics) (the (risk_multiplier ps))\<rparr>
              else projectedMetrics);
          (now, w5) = Date_now w4;
          (r, w6) = Math_random w5;
          (created, w7) = Date_now w6
      in (\<lparr>sc_id = ''scenario-'' @ num_str h (of_int now) @ ''-'' @ random_suffix h r,
           sc_name = generateScenarioName h ps,
           sc_strategy_id = strategyId,
           parameters = ps,
           projected_metrics = projectedMetrics1,
           created_at = created\<rparr>, w7))"

subsection \<open>compareScenarios\<close>





section \<open>AnomalyDetector (lib/anomaly/detector.ts, as printed in docs/DEVELOPMENT.md)\<close>

datatype anomaly_type = Latency_spike | High_reject_rate | Unusual_volume | Fill_rate_drop

datatype severity = Low | Medium | High | Critical

text \<open>\<open>threshold_value\<close> is \<open>None\<close> when the source stores \<^verbatim>\<open>NaN\<close> there.\<close>

record anomaly =
  an_id :: string
  an_timestamp :: date
  an_strategy_id :: string
  an_type :: anomaly_type
  an_severity :: severity
  an_description :: string
  metric_value :: real
  threshold_value :: "real option"
  detected_at :: date

record anomaly_thresholds =
  latencySpike :: real
  highRejectRate :: real
  fillRateDrop :: real
  volumeMultiplier :: real

definition DEFAULT_THRESHOLDS :: anomaly_thresholds where
  "DEFAULT_THRESHOLDS =
     \<lparr>latencySpike = 150, highRejectRate = b64 (15 / 100), fillRateDrop = b64 (6 / 10),
      volumeMultiplier = 3\<rparr>"

definition calculateSeverity :: "real \<Rightarrow> real \<times> real \<times> real \<Rightarrow> severity" where
  "calculateSeverity v thresholds =
     (case thresholds of (t0, t1, t2) \<Rightarrow>
        if v < t0 then Low else if v < t1 then Medium else if v < t2 then High else Critical)"

text \<open>
  The identifier of an anomaly,
  \<^verbatim>\<open>`anomaly-<kind>-${Date.now()}-${Math.random().toString(36).substr(2, 9)}`\<close>:
  one reading of the clock and one random number.
\<close>

definition fresh_id :: "host \<Rightarrow> string \<Rightarrow> world \<Rightarrow> string \<times> world" where
  "fresh_id h prefix w =
     (let (now, w1) = Date_now w;
          (r, w2) = Math_random w1
      in (prefix @ num_str h (of_int now) @ ''-'' @ random_suffix h r, w2))"

subsection \<open>detectLatencySpikes\<close>

text \<open>
  The statistics of a window. With \<open>windowSize = 0\<close> the window is empty, the mean is
  \<^verbatim>\<open>0 / 0\<close> and every statistic is \<^verbatim>\<open>NaN\<close>, written \<open>None\<close>.
\<close>

definition window_mean :: "real list \<Rightarrow> real option" where
  "window_mean windowLatencies = js_div (fsum windowLatencies) (real (length windowLatencies))"

definition window_stdDev :: "real list \<Rightarrow> real option" where
  "window_stdDev windowLatencies =
     (case window_mean windowLatencies of
        None \<Rightarrow> None
      | Some mean \<Rightarrow>
          map_option fsqrt
            (js_div (foldl (\<lambda>sum val. fadd sum (fpow2 (fsub val mean))) 0 windowLatencies)
               (real (length windowLatencies))))"

text \<open>
  \<^verbatim>\<open>(currentLatency - mean) / (stdDev || 1)\<close>: a deviation of zero, and \<^verbatim>\<open>NaN\<close>, are falsy and
  replaced by 1; with a mean that is \<^verbatim>\<open>NaN\<close> the quotient is \<^verbatim>\<open>NaN\<close>.
\<close>

definition zScore_of :: "real option \<Rightarrow> real option \<Rightarrow> real \<Rightarrow> real option" where
  "zScore_of mean stdDev currentLatency =
     (case mean of
        None \<Rightarrow> None
      | Some m \<Rightarrow>
          Some (fdiv (fsub currentLatency m) (case stdDev of None \<Rightarrow> 1 | Some s \<Rightarrow> or_one s)))"

text \<open>\<^verbatim>\<open>mean + 3 * stdDev\<close>\<close>

definition spike_threshold :: "real option \<Rightarrow> real option \<Rightarrow> real option" where
  "spike_threshold mean stdDev =
     (case mean of
        None \<Rightarrow> None
      | Some m \<Rightarrow> (case stdDev of None \<Rightarrow> None | Some s \<Rightarrow> Some (fadd m (fmul 3 s))))"

text \<open>
  One round of the loop \<^verbatim>\<open>for (let i = windowSize; i < sortedMetrics.length; i++)\<close>. A
  comparison with \<^verbatim>\<open>NaN\<close> is false, so that a score that is \<^verbatim>\<open>NaN\<close> is not above 3 and not
  below any severity threshold; \<^verbatim>\<open>NaN.toFixed(2)\<close> is the text \<^verbatim>\<open>NaN\<close>.
\<close>

definition spike_step ::
  "host \<Rightarrow> anomaly_thresholds \<Rightarrow> nat \<Rightarrow> latency_metric list \<Rightarrow> anomaly list \<times> world \<Rightarrow> nat
   \<Rightarrow> anomaly list \<times> world" where
  "spike_step h th windowSize sortedMetrics st i =
     (let anomalies = fst st; w = snd st;
          window = slice (int i - int windowSize) (int i) sortedMetrics;
          windowLatencies = map lm_latency_ms window;
          mean = window_mean windowLatencies;
          stdDev = window_stdDev windowLatencies;
          currentLatency = lm_latency_ms (sortedMetrics ! i);
          zScore = zScore_of mean stdDev currentLatency
      in if (case zScore of None \<Rightarrow> False | Some z \<Rightarrow> z > 3)
            \<or> currentLatency > latencySpike th
         then
           let (ident, w1) = fresh_id h ''anomaly-latency-'' w;
               (detected, w2) = Date_now w1
           in (anomalies @
                 [\<lparr>an_id = ident,
                   an_timestamp = lm_timestamp (sortedMetrics ! i),
                   an_strategy_id = lm_strategy_id (sortedMetrics ! i),
                   an_type = Latency_spike,
                   an_severity = (case zScore of
                                    None \<Rightarrow> Critical
                                  | Some z \<Rightarrow> calculateSeverity z (2, 3, 4)),
                   an_description = ''Latency spike detected: '' @ to_fixed h currentLatency 2
                     @ ''ms (''
                     @ (case zScore of None \<Rightarrow> ''NaN'' | Some z \<Rightarrow> to_fixed h z 2)
                     @ '' std devs above mean)'',
                   metric_value = currentLatency,
                   threshold_value = spike_threshold mean stdDev,
                   detected_at = detected\<rparr>], w2)
         else (anomalies, w))"

definition detectLatencySpikes ::
  "host \<Rightarrow> anomaly_thresholds \<Rightarrow> world \<Rightarrow> latency_metric list \<Rightarrow> nat \<Rightarrow> anomaly list \<times> world" where
  "detectLatencySpikes h th w metrics windowSize =
     (if length metrics < windowSize then ([], w)
      else
        let sortedMetrics = sort_key lm_timestamp metrics
        in foldl (spike_step h th windowSize sortedMetrics) ([], w)
             [windowSize ..< length sortedMetrics])"

subsection \<open>detectHighRejectRate\<close>

record reject_window =
  win_fills :: nat
  win_cancels :: nat
  win_rejects :: nat
  win_timestamp :: date

definition addToWindow ::
  "int \<Rightarrow> (string \<times> (int \<times> reject_window) list) list \<Rightarrow> string \<times> date \<times> event_type
   \<Rightarrow> (string \<times> (int \<times> reject_window) list) list" where
  "addToWindow windowMinutes strategyWindows ev =
     (case ev of (strategyId, t, type) \<Rightarrow>
        let sw1 = (if \<not> map_has strategyWindows strategyId
                   then map_set strategyId [] strategyWindows else strategyWindows);
            windows = map_get sw1 strategyId;
            key = windowKey windowMinutes t;
            windows1 = (if \<not> map_has windows key
                        then map_set key
                               \<lparr>win_fills = 0, win_cancels = 0, win_rejects = 0,
                                win_timestamp = windowStart windowMinutes key\<rparr> windows
                        else windows);
            window = map_get windows1 key;
            window1 = (if type = Fill_event then window\<lparr>win_fills := win_fills window + 1\<rparr>
                       else if type = Cancel_event
                       then window\<lparr>win_cancels := win_cancels window + 1\<rparr>
                       else window\<lparr>win_rejects := win_rejects window + 1\<rparr>)
        in map_set strategyId (map_set key window1 windows1) sw1)"

definition reject_window_step ::
  "host \<Rightarrow> anomaly_thresholds \<Rightarrow> string \<Rightarrow> anomaly list \<times> world \<Rightarrow> int \<times> reject_window
   \<Rightarrow> anomaly list \<times> world" where
  "reject_window_step h th strategyId st entry =
     (let anomalies = fst st; w = snd st; window = snd entry;
          total = win_fills window + win_cancels window + win_rejects window
      in if total < 5 then (anomalies, w)
         else
           let rejectRate = fdiv (real (win_rejects window)) (real total)
           in if rejectRate > highRejectRate th
              then
                let (ident, w1) = fresh_id h ''anomaly-reject-'' w;
                    (detected, w2) = Date_now w1
                in (anomalies @
                      [\<lparr>an_id = ident,
                        an_timestamp = win_timestamp window,
                        an_strategy_id = strategyId,
                        an_type = High_reject_rate,
                        an_severity = calculateSeverity rejectRate
                          (b64 (10 / 100), b64 (15 / 100), b64 (25 / 100)),
                        an_description = ''High reject rate detected: ''
                          @ to_fixed h (fmul rejectRate 100) 1 @ ''% (''
                          @ num_str h (real (win_rejects window)) @ ''/''
                          @ num_str h (real total) @ '' orders)'',
                        metric_value = rejectRate,
                        threshold_value = Some (highRejectRate th),
                        detected_at = detected\<rparr>], w2)
              else (anomalies, w))"

definition detectHighRejectRate ::
  "host \<Rightarrow> anomaly_thresholds \<Rightarrow> world \<Rightarrow> fill list \<Rightarrow> cancel list \<Rightarrow> reject list \<Rightarrow> int
   \<Rightarrow> anomaly list \<times> world" where
  "detectHighRejectRate h th w fills cancels rejects windowMinutes =
     (let sw1 = foldl (addToWindow windowMinutes) []
                  (map (\<lambda>f. (fill_strategy_id f, fill_timestamp f, Fill_event)) fills);
          sw2 = foldl (addToWindow windowMinutes) sw1
                  (map (\<lambda>c. (cancel_strategy_id c, cancel_timestamp c, Cancel_event)) cancels);
          sw3 = foldl (addToWindow windowMinutes) sw2
                  (map (\<lambda>r. (reject_strategy_id r, reject_timestamp r, Reject_event)) rejects)
      in foldl (\<lambda>st (strategyId, windows).
                  foldl (reject_window_step h th strategyId) st windows) ([], w) sw3)"

subsection \<open>detectUnusualVolume\<close>

text \<open>
  \<^verbatim>\<open>window.value / avgVolume\<close> is reached with \<^verbatim>\<open>window.value > avgVolume * volumeMultiplier\<close>
  only. When the average is zero the quotient is \<^verbatim>\<open>Infinity\<close>, which is not below any
  threshold and prints as \<^verbatim>\<open>Infinity\<close>.
\<close>

definition volume_window_step ::
  "host \<Rightarrow> anomaly_thresholds \<Rightarrow> string \<Rightarrow> real \<Rightarrow> anomaly list \<times> world \<Rightarrow> time_series_point
   \<Rightarrow> anomaly list \<times> world" where
  "volume_window_step h th strategyId avgVolume st window =
     (let anomalies = fst st; w = snd st
      in if point_value window > fmul avgVolume (volumeMultiplier th)
         then
           let multiplier = js_div (point_value window) avgVolume;
               sev = (case multiplier of
                        None \<Rightarrow> Critical | Some m \<Rightarrow> calculateSeverity m (2, 3, 5));
               (ident, w1) = fresh_id h ''anomaly-volume-'' w;
               (detected, w2) = Date_now w1
           in (anomalies @
                 [\<lparr>an_id = ident,
                   an_timestamp = point_timestamp window,
                   an_strategy_id = strategyId,
                   an_type = Unusual_volume,
                   an_severity = sev,
                   an_description = ''Unusual volume spike: ''
                     @ to_fixed h (point_value window) 0 @ '' (''
                     @ (case multiplier of None \<Rightarrow> ''Infinity'' | Some m \<Rightarrow> to_fixed h m 1)
                     @ ''x average)'',
                   metric_value = point_value window,
                   threshold_value = Some (fmul avgVolume (volumeMultiplier th)),
                   detected_at = detected\<rparr>], w2)
         else (anomalies, w))"

definition volume_strategy_step ::
  "host \<Rightarrow> anomaly_thresholds \<Rightarrow> fill list \<Rightarrow> int \<Rightarrow> anomaly list \<times> world
   \<Rightarrow> string \<times> time_series_point list \<Rightarrow> anomaly list \<times> world" where
  "volume_strategy_step h th fills windowMinutes st entry =
     (let strategyId = fst entry;
          strategyFills = filter (\<lambda>f. fill_strategy_id f = strategyId) fills;
          volumeSeries = calculateVolumeTimeSeries strategyFills windowMinutes
      in if length volumeSeries < 5 then st
         else
           let volumes = map point_value volumeSeries;
               avgVolume = fdiv (fsum volumes) (real (length volumes));
               recentWindows = slice (- 5) (int (length volumeSeries)) volumeSeries
           in foldl (volume_window_step h th strategyId avgVolume) st recentWindows)"

definition detectUnusualVolume ::
  "host \<Rightarrow> anomaly_thresholds \<Rightarrow> world \<Rightarrow> fill list \<Rightarrow> int \<Rightarrow> anomaly list \<times> world" where
  "detectUnusualVolume h th w fills windowMinutes =
     (let strategyVolumes =
            foldl (\<lambda>sv f. if \<not> map_has sv (fill_strategy_id f)
                           then map_set (fill_strategy_id f) [] sv else sv) [] fills
      in foldl (volume_strategy_step h th fills windowMinutes) ([], w) strategyVolumes)"

subsection \<open>detectFillRateDrop\<close>

text \<open>A \<^verbatim>\<open>Set\<close> built from an array keeps the first occurrence of each element, in order.\<close>

definition set_add :: "'a list \<Rightarrow> 'a \<Rightarrow> 'a list" where
  "set_add s x = (if x \<in> set s then s else s @ [x])"

definition new_Set :: "'a list \<Rightarrow> 'a list" where
  "new_Set xs = foldl set_add [] xs"

definition fillrate_window_step ::
  "host \<Rightarrow> anomaly_thresholds \<Rightarrow> string \<Rightarrow> real \<Rightarrow> anomaly list \<times> world \<Rightarrow> time_series_point
   \<Rightarrow> anomaly list \<times> world" where
  "fillrate_window_step h th strategyId avgFillRate st window =
     (let anomalies = fst st; w = snd st
      in if point_value window < fmul avgFillRate (fillRateDrop th) \<and> avgFillRate > 5 / 10
         then
           let dropPercentage =
                 fmul (fdiv (fsub avgFillRate (point_value window)) avgFillRate) 100;
               (ident, w1) = fresh_id h ''anomaly-fillrate-'' w;
               (detected, w2) = Date_now w1
           in (anomalies @
                 [\<lparr>an_id = ident,
                   an_timestamp = point_timestamp window,
                   an_strategy_id = strategyId,
                   an_type = Fill_rate_drop,
                   an_severity = calculateSeverity dropPercentage (20, 40, 60),
                   an_description = ''Fill rate drop detected: ''
                     @ to_fixed h (fmul (point_value window) 100) 1 @ ''% (down ''
                     @ to_fixed h dropPercentage 1 @ ''% from average)'',
                   metric_value = point_value window,
                   threshold_value = Some (fmul avgFillRate (fillRateDrop th)),
                   detected_at = detected\<rparr>], w2)
         else (anomalies, w))"

definition fillrate_strategy_step ::
  "host \<Rightarrow> anomaly_thresholds \<Rightarrow> fill list \<Rightarrow> cancel list \<Rightarrow> reject list \<Rightarrow> int
   \<Rightarrow> anomaly list \<times> world \<Rightarrow> string \<Rightarrow> anomaly list \<times> world" where
  "fillrate_strategy_step h th fills cancels rejects windowMinutes st strategyId =
     (let strategyFills = filter (\<lambda>f. fill_strategy_id f = strategyId) fills;
          strategyCancels = filter (\<lambda>c. cancel_strategy_id c = strategyId) cancels;
          strategyRejects = filter (\<lambda>r. reject_strategy_id r = strategyId) rejects;
          fillRateSeries = calculateFillRateTimeSeries strategyFills strategyCancels
                             strategyRejects windowMinutes
      in if length fillRateSeries < 5 then st
         else
           let fillRates = map point_value fillRateSeries;
               avgFillRate = fdiv (fsum fillRates) (real (length fillRates));
               recentWindows = slice (- 5) (int (length fillRateSeries)) fillRateSeries
           in foldl (fillrate_window_step h th strategyId avgFillRate) st recentWindows)"

definition detectFillRateDrop ::
  "host \<Rightarrow> anomaly_thresholds \<Rightarrow> world \<Rightarrow> fill list \<Rightarrow> cancel list \<Rightarrow> reject list \<Rightarrow> int
   \<Rightarrow> anomaly list \<times> world" where
  "detectFillRateDrop h th w fills cancels rejects windowMinutes =
     (let strategyIds = new_Set (map fill_strategy_id fills @ map cancel_strategy_id cancels)
      in foldl (fillrate_strategy_step h th fills cancels rejects windowMinutes) ([], w)
           strategyIds)"

subsection \<open>detectAll\<close>

text \<open>
  The four detectors run one after the other, with their default window arguments, and the
  concatenation is sorted with the comparator \<^verbatim>\<open>b.timestamp - a.timestamp\<close>: a stable sort,
  latest first.
\<close>

definition detectAll ::
  "host \<Rightarrow> anomaly_thresholds \<Rightarrow> world \<Rightarrow> fill list \<Rightarrow> cancel list \<Rightarrow> reject list
   \<Rightarrow> latency_metric list \<Rightarrow> anomaly list \<times> world" where
  "detectAll h th w fills cancels rejects latencyMetrics =
     (let (latencyAnomalies, w1) = detectLatencySpikes h th w latencyMetrics 20;
          (rejectAnomalies, w2) = detectHighRejectRate h th w1 fills cancels rejects 60;
          (volumeAnomalies, w3) = detectUnusualVolume h th w2 fills 60;
          (fillRateAnomalies, w4) = detectFillRateDrop h th w3 fills cancels rejects 60
      in (sort_key (\<lambda>a. - an_timestamp a)
            (latencyAnomalies @ rejectAnomalies @ volumeAnomalies @ fillRateAnomalies), w4))"

section \<open>Notions used in the statements\<close>




text \<open>A parameter set to zero, read as an absent one.\<close>

definition absent_if_zero :: "real option \<Rightarrow> real option" where
  "absent_if_zero p = (case p of None \<Rightarrow> None | Some v \<Rightarrow> if v = 0 then None else Some v)"

definition zeros_as_absent :: "simulation_parameters \<Rightarrow> simulation_parameters" where
  "zeros_as_absent ps =
     \<lparr>max_position_size = absent_if_zero (max_position_size ps),
      order_timeout_ms = absent_if_zero (order_timeout_ms ps),
      min_fill_rate = absent_if_zero (min_fill_rate ps),
      max_latency_ms = absent_if_zero (max_latency_ms ps),
      risk_multiplier = absent_if_zero (risk_multiplier ps)\<rparr>"

definition no_parameters :: simulation_parameters where
  "no_parameters =
     \<lparr>max_position_size = None, order_timeout_ms = None, min_fill_rate = None,
      max_latency_ms = None, risk_multiplier = None\<rparr>"

text \<open>
  The loops that fill a \<^verbatim>\<open>Map\<close> of windows all have one shape: create the entry of the key
  if it is missing, then update it. \<open>group_step\<close> is that shape, \<open>current\<close> the value an
  update starts from, \<open>rate_upd\<close> the update of the fill-rate windows and \<open>all_events\<close> the
  sorted event list of \<open>calculateFillRateTimeSeries\<close>; they serve the proofs about the series.
\<close>

definition group_step ::
  "('x \<Rightarrow> 'k) \<Rightarrow> 'v \<Rightarrow> ('v \<Rightarrow> 'x \<Rightarrow> 'v) \<Rightarrow> ('k \<times> 'v) list \<Rightarrow> 'x \<Rightarrow> ('k \<times> 'v) list" where
  "group_step key init upd m x =
     (let m1 = (if \<not> map_has m (key x) then map_set (key x) init m else m)
      in map_set (key x) (upd (map_get m1 (key x)) x) m1)"

definition current :: "'v \<Rightarrow> ('k \<times> 'v) list \<Rightarrow> 'k \<Rightarrow> 'v" where
  "current init m k = (case map_of m k of None \<Rightarrow> init | Some v \<Rightarrow> v)"

definition rate_upd :: "rate_window \<Rightarrow> date \<times> event_type \<Rightarrow> rate_window" where
  "rate_upd window event =
     (let window1 = window\<lparr>rw_total := rw_total window + 1\<rparr>
      in if snd event = Fill_event then window1\<lparr>rw_fills := rw_fills window1 + 1\<rparr> else window1)"

definition all_events :: "fill list \<Rightarrow> cancel list \<Rightarrow> reject list \<Rightarrow> (date \<times> event_type) list" where
  "all_events fills cancels rejects =
     sort_key fst
       (map (\<lambda>f. (fill_timestamp f, Fill_event)) fills @
        map (\<lambda>c. (cancel_timestamp c, Cancel_event)) cancels @
        map (\<lambda>r. (reject_timestamp r, Reject_event)) rejects)"

text \<open>
  A series is ascending by timestamp and has exactly one point for each window that holds
  one of the given timestamps, and no other point.
\<close>

definition one_point_per_window :: "int \<Rightarrow> date list \<Rightarrow> time_series_point list \<Rightarrow> bool" where
  "one_point_per_window w stamps series \<longleftrightarrow>
     sorted (map point_timestamp series) \<and> distinct (map point_timestamp series)
     \<and> set (map point_timestamp series) = (\<lambda>t. windowStart w (windowKey w t)) ` set stamps"

text \<open>
  Two lists hold the events of every window in the same order: for the key of each window
  that has an event in one of them, the events of that window, taken in the order of the
  list, are the same.
\<close>

definition same_order_within_windows :: "int \<Rightarrow> ('a \<Rightarrow> date) \<Rightarrow> 'a list \<Rightarrow> 'a list \<Rightarrow> bool" where
  "same_order_within_windows w stamp xs' xs \<longleftrightarrow>
     (\<forall>k \<in> set (map (\<lambda>x. windowKey w (stamp x)) (xs' @ xs)).
        filter (\<lambda>x. windowKey w (stamp x) = k) xs' = filter (\<lambda>x. windowKey w (stamp x) = k) xs)"

text \<open>
  An anomaly without what it takes from the clock and the random generator: its identifier
  and the instant of detection.
\<close>

definition unstamped :: "anomaly \<Rightarrow> anomaly" where
  "unstamped a = a\<lparr>an_id := [], detected_at := 0\<rparr>"

definition same_unstamped :: "anomaly list \<times> world \<Rightarrow> anomaly list \<times> world \<Rightarrow> bool" where
  "same_unstamped st st' \<longleftrightarrow> map unstamped (fst st) = map unstamped (fst st')"

text \<open>
  The latency-spike detector, said over the samples in timestamp order: the latencies of the
  \<open>windowSize\<close> samples before sample \<open>i\<close>; the z-score of sample \<open>i\<close> as the code computes
  it, the deviation from the window mean divided by the standard deviation of the window, or
  by 1 when that deviation is zero (and \<open>None\<close>, that is \<^verbatim>\<open>NaN\<close>, when the window is empty);
  the condition under which the sample is reported; and the anomaly reported for it.
\<close>

definition window_before :: "latency_metric list \<Rightarrow> nat \<Rightarrow> nat \<Rightarrow> real list" where
  "window_before sortedMetrics windowSize i =
     map lm_latency_ms (take windowSize (drop (i - windowSize) sortedMetrics))"

definition zScore_at :: "latency_metric list \<Rightarrow> nat \<Rightarrow> nat \<Rightarrow> real option" where
  "zScore_at sortedMetrics windowSize i =
     (case (window_mean (window_before sortedMetrics windowSize i),
            window_stdDev (window_before sortedMetrics windowSize i)) of
        (Some mean, Some stdDev) \<Rightarrow>
          Some (fdiv (fsub (lm_latency_ms (sortedMetrics ! i)) mean)
                  (if stdDev = 0 then 1 else stdDev))
      | _ \<Rightarrow> None)"

definition spike_flag :: "anomaly_thresholds \<Rightarrow> latency_metric list \<Rightarrow> nat \<Rightarrow> nat \<Rightarrow> bool" where
  "spike_flag th sortedMetrics windowSize i \<longleftrightarrow>
     (case zScore_at sortedMetrics windowSize i of None \<Rightarrow> False | Some z \<Rightarrow> z > 3)
     \<or> lm_latency_ms (sortedMetrics ! i) > latencySpike th"

definition spike_record :: "host \<Rightarrow> latency_metric list \<Rightarrow> nat \<Rightarrow> nat \<Rightarrow> anomaly" where
  "spike_record h sortedMetrics windowSize i =
     \<lparr>an_id = [],
      an_timestamp = lm_timestamp (sortedMetrics ! i),
      an_strategy_id = lm_strategy_id (sortedMetrics ! i),
      an_type = Latency_spike,
      an_severity = (case zScore_at sortedMetrics windowSize i of
                       None \<Rightarrow> Critical
                     | Some z \<Rightarrow> calculateSeverity z (2, 3, 4)),
      an_description = ''Latency spike detected: ''
        @ to_fixed h (lm_latency_ms (sortedMetrics ! i)) 2 @ ''ms (''
        @ (case zScore_at sortedMetrics windowSize i of
             None \<Rightarrow> ''NaN'' | Some z \<Rightarrow> to_fixed h z 2)
        @ '' std devs above mean)'',
      metric_value = lm_latency_ms (sortedMetrics ! i),
      threshold_value = spike_threshold (window_mean (window_before sortedMetrics windowSize i))
        (window_stdDev (window_before sortedMetrics windowSize i)),
      detected_at = 0\<rparr>"

text \<open>
  The z-score as the specification words it, with \<open>max (stddev, 1)\<close> as the divisor. It is
  compared with \<open>zScore_at\<close>.
\<close>

definition zScore_as_specified :: "latency_metric list \<Rightarrow> nat \<Rightarrow> nat \<Rightarrow> real option" where
  "zScore_as_specified sortedMetrics windowSize i =
     (case (window_mean (window_before sortedMetrics windowSize i),
            window_stdDev (window_before sortedMetrics windowSize i)) of
        (Some mean, Some stdDev) \<Rightarrow>
          Some (fdiv (fsub (lm_latency_ms (sortedMetrics ! i)) mean) (max stdDev 1))
      | _ \<Rightarrow> None)"

section \<open>Example data\<close>

definition ex_fill :: "string \<Rightarrow> date \<Rightarrow> side \<Rightarrow> real \<Rightarrow> fill" where
  "ex_fill ident t sd qty =
     \<lparr>fill_id = ident, fill_timestamp = t, fill_strategy_id = ''S1'', fill_symbol = ''AAPL'',
      fill_side = sd, fill_quantity = qty, fill_price = 10, fill_venue = ''NYSE'',
      fill_latency_ms = 20, fill_order_id = ''o-'' @ ident\<rparr>"

definition ex_cancel :: "string \<Rightarrow> date \<Rightarrow> cancel" where
  "ex_cancel ident t =
     \<lparr>cancel_id = ident, cancel_timestamp = t, cancel_strategy_id = ''S1'',
      cancel_symbol = ''AAPL'', cancel_order_id = ''o-'' @ ident, cancel_reason = ''User'',
      cancel_latency_ms = 5\<rparr>"

definition ex_reject :: "string \<Rightarrow> date \<Rightarrow> reject" where
  "ex_reject ident t =
     \<lparr>reject_id = ident, reject_timestamp = t, reject_strategy_id = ''S1'',
      reject_symbol = ''AAPL'', reject_order_id = ''o-'' @ ident, reject_reason = ''Risk'',
      reject_error_code = ''E1''\<rparr>"

definition ex_latency :: "string \<Rightarrow> date \<Rightarrow> real \<Rightarrow> latency_metric" where
  "ex_latency ident t ms =
     \<lparr>lm_id = ident, lm_timestamp = t, lm_strategy_id = ''S1'', lm_metric_type = Order_to_fill,
      lm_latency_ms = ms, lm_percentile_50 = None, lm_percentile_95 = None,
      lm_percentile_99 = None\<rparr>"

definition ex_host :: host where
  "ex_host = \<lparr>num_str = (\<lambda>x. ''n''), to_fixed = (\<lambda>x d. ''n''), radix36 = (\<lambda>x. ''0.r''),
              iso_string = (\<lambda>d. ''1970-01-01T00:00:00.000Z'')\<rparr>"

definition ex_world :: "date \<Rightarrow> world" where
  "ex_world t = \<lparr>clock = (\<lambda>n. t), rng = (\<lambda>n. 1 / 4), reads = 0, draws = 0\<rparr>"



definition ex_point :: "date \<Rightarrow> real \<Rightarrow> time_series_point" where
  "ex_point t v = \<lparr>point_timestamp = t, point_value = v\<rparr>"

text \<open>Twenty latency samples of 0.1 followed by one of 0.2 (the doubles so written).\<close>

definition ex_tenths :: "latency_metric list" where
  "ex_tenths = map (\<lambda>i. ex_latency ''m'' (int i) (b64 (1 / 10))) [1 ..< 21]
     @ [ex_latency ''z'' 21 (b64 (2 / 10))]"

definition ex_rejects :: "reject list" where
  "ex_rejects = [ex_reject ''r1'' 1000, ex_reject ''r2'' 2000, ex_reject ''r3'' 3000,
                 ex_reject ''r4'' 4000, ex_reject ''r5'' 5000]"

section \<open>Results\<close>

subsection \<open>Binary64 rounding\<close>

lemma round_even_error: "\<bar>of_int (round_even y) - y\<bar> \<le> 1 / 2"
  unfolding round_even_def by (auto simp: abs_if) linarith+

lemma round_even_of_int: "round_even (of_int n) = n"
  by (simp add: round_even_def)

lemma floor_log2_eq:
  assumes "0 < x" and "2 powi e \<le> x" and "x < 2 powi (e + 1)"
  shows "\<lfloor>log 2 x\<rfloor> = e"
proof -
  have p: "(2::real) powr (real_of_int k) = 2 powi k" for k
    by (simp add: powr_real_of_int')
  have "2 powr real_of_int e \<le> x \<and> x < 2 powr real_of_int (e + 1)"
    using assms(2,3) by (simp only: p)
  then show ?thesis
    using floor_log_eq_powr_iff[of x 2 e] assms(1) by simp
qed

lemma b64_at:
  assumes "2 powi e \<le> \<bar>x\<bar>" and "\<bar>x\<bar> < 2 powi (e + 1)" and "- 1022 \<le> e"
  shows "b64 x = of_int (round_even (x / 2 powi (e - 52))) * 2 powi (e - 52)"
proof -
  have pos: "0 < \<bar>x\<bar>" using assms(1) by (smt (verit) zero_less_power_int)
  have "\<lfloor>log 2 \<bar>x\<bar>\<rfloor> = e" by (rule floor_log2_eq[OF pos assms(1,2)])
  then have "ulp_exponent x = e - 52" using assms(3) by (simp add: ulp_exponent_def)
  moreover have "x \<noteq> 0" using pos by simp
  ultimately show ?thesis by (simp add: b64_def)
qed

lemma b64_0: "b64 0 = 0"
  by (simp add: b64_def)

lemma b64_dyadic:
  assumes m: "\<bar>m\<bar> < 2 ^ 53" and k: "- 1074 \<le> k"
  shows "b64 (of_int m * 2 powi k) = of_int m * 2 powi k"
proof (cases "m = 0")
  case True
  then show ?thesis by (simp add: b64_def)
next
  case False
  let ?x = "real_of_int m * 2 powi k"
  have x0: "?x \<noteq> 0" using False by simp
  have ax: "\<bar>?x\<bar> = real_of_int \<bar>m\<bar> * 2 powi k" by (simp add: abs_mult)
  have "real_of_int \<bar>m\<bar> < 2 ^ 53" using m by (metis of_int_less_numeral_power_cancel_iff)
  then have "\<bar>?x\<bar> < 2 ^ 53 * 2 powi k" unfolding ax by (simp add: mult_strict_right_mono)
  also have "\<dots> = 2 powi (53 + k)" by (simp add: power_int_add)
  finally have ub: "\<bar>?x\<bar> < 2 powi (53 + k)" .
  have pos: "0 < \<bar>?x\<bar>" using x0 by simp
  have "log 2 \<bar>?x\<bar> < log 2 (2 powi (53 + k))"
    using ub pos by (simp add: log_less_cancel_iff)
  also have "\<dots> = real_of_int (53 + k)"
  proof -
    have "(2::real) powi (53 + k) = 2 powr real_of_int (53 + k)"
      using powr_real_of_int'[of 2 "53 + k"] by (simp del: of_int_add)
    then show ?thesis by (simp only: log_powr_cancel)
  qed
  finally have "\<lfloor>log 2 \<bar>?x\<bar>\<rfloor> < 53 + k" by linarith
  then have ue: "ulp_exponent ?x \<le> k" using k by (simp add: ulp_exponent_def)
  define u where "u = ulp_exponent ?x"
  define d where "d = nat (k - u)"
  have kd: "k = u + int d" using ue by (simp add: d_def u_def)
  have pk: "(2::real) powi k = 2 powi u * 2 ^ d"
    unfolding kd by (simp add: power_int_add)
  have pu: "(2::real) powi u \<noteq> 0" by simp
  have "?x / 2 powi u = real_of_int m * 2 ^ d"
    unfolding pk using pu by simp
  also have "\<dots> = real_of_int (m * 2 ^ d)" by simp
  finally have y: "?x / 2 powi u = real_of_int (m * 2 ^ d)" .
  have "b64 ?x = real_of_int (round_even (?x / 2 powi u)) * 2 powi u"
    using x0 by (simp only: b64_def u_def if_False)
  also have "\<dots> = real_of_int (m * 2 ^ d) * 2 powi u"
    by (simp only: y round_even_of_int)
  also have "\<dots> = real_of_int m * (2 powi u * 2 ^ d)" by simp
  also have "\<dots> = real_of_int m * 2 powi k" by (simp only: pk)
  finally show ?thesis .
qed

lemma b64_error_ulp: "\<bar>b64 x - x\<bar> \<le> 2 powi ulp_exponent x / 2"
proof (cases "x = 0")
  case True
  then show ?thesis by (simp add: b64_def)
next
  case False
  define u where "u = (2::real) powi ulp_exponent x"
  have u0: "0 < u" by (simp add: u_def)
  have bx: "b64 x = of_int (round_even (x / u)) * u"
    using False by (simp add: b64_def u_def)
  have "x = x / u * u" using u0 by simp
  then have "b64 x - x = of_int (round_even (x / u)) * u - x / u * u"
    using bx by simp
  then have "b64 x - x = (of_int (round_even (x / u)) - x / u) * u"
    by (simp only: left_diff_distrib)
  then have "\<bar>b64 x - x\<bar> = \<bar>of_int (round_even (x / u)) - x / u\<bar> * u"
    using u0 by (simp add: abs_mult)
  also have "\<dots> \<le> 1 / 2 * u"
    using round_even_error[of "x / u"] u0 by (intro mult_right_mono) simp_all
  finally show ?thesis by (simp add: u_def)
qed

lemma ulp_exponent_le:
  assumes "x \<noteq> 0" and "\<bar>x\<bar> < 2 powi e" and "- 1021 \<le> e"
  shows "ulp_exponent x \<le> e - 53"
proof -
  have "(2::real) powi e = 2 powr real_of_int e" by (simp add: powr_real_of_int')
  then have "\<bar>x\<bar> < 2 powr real_of_int e" using assms(2) by (simp only:)
  then have "log 2 \<bar>x\<bar> < real_of_int e"
    using assms(1) by (simp add: log_less_iff)
  then have "\<lfloor>log 2 \<bar>x\<bar>\<rfloor> \<le> e - 1" by linarith
  then show ?thesis using assms(3) by (simp add: ulp_exponent_def)
qed

lemma b64_error_below:
  assumes "\<bar>x\<bar> < 2 powi e" and "- 1021 \<le> e"
  shows "\<bar>b64 x - x\<bar> \<le> 2 powi (e - 54)"
proof (cases "x = 0")
  case True
  then show ?thesis by (simp add: b64_def)
next
  case False
  have "ulp_exponent x \<le> e - 53" using False assms by (rule ulp_exponent_le)
  then have "(2::real) powi ulp_exponent x \<le> 2 powi (e - 53)"
    by (intro power_int_increasing) simp_all
  moreover have "(2::real) powi (e - 53) = 2 powi (e - 54) * 2"
    using power_int_add[of "2::real" "e - 54" 1] by simp
  ultimately have "(2::real) powi ulp_exponent x / 2 \<le> 2 powi (e - 54)" by simp
  with b64_error_ulp[of x] show ?thesis by linarith
qed

lemma b64_unit_error:
  assumes "0 \<le> x" and "x \<le> 1"
  shows "\<bar>b64 x - x\<bar> \<le> 1 / 2 ^ 54"
proof (cases "x = 1")
  case True
  have "b64 (of_int 1 * 2 powi 0) = of_int 1 * 2 powi 0" by (rule b64_dyadic) simp_all
  with True show ?thesis by simp
next
  case False
  then have "\<bar>x\<bar> < 2 powi 0" using assms by simp
  then have "\<bar>b64 x - x\<bar> \<le> 2 powi (0 - 54)" by (rule b64_error_below) simp
  moreover have "(2::real) powi (0 - 54) = 1 / 2 ^ 54"
    by (simp add: power_int_minus inverse_eq_divide)
  ultimately show ?thesis by (simp only:)
qed

lemma b64_two_error:
  assumes "\<bar>x\<bar> < 2"
  shows "\<bar>b64 x - x\<bar> \<le> 1 / 2 ^ 53"
proof -
  have "\<bar>x\<bar> < 2 powi 1" using assms by simp
  then have "\<bar>b64 x - x\<bar> \<le> 2 powi (1 - 54)" by (rule b64_error_below) simp
  moreover have "(2::real) powi (1 - 54) = 1 / 2 ^ 53"
    by (simp add: power_int_minus inverse_eq_divide)
  ultimately show ?thesis by (simp only:)
qed

lemma b64_sixth: "b64 (1 / 6) = 6004799503160661 / 2 ^ 55"
  using b64_at[of "- 3" "1 / 6"]
  by (simp add: power_int_minus round_even_def)

lemma b64_two_thirds: "b64 (2 / 3) = 6004799503160661 / 2 ^ 53"
  using b64_at[of "- 1" "2 / 3"]
  by (simp add: power_int_minus round_even_def)

lemma b64_tenth: "b64 (1/10) = 3602879701896397 / 2 ^ 55"
  using b64_at[of "-4" "1/10"]
  by (simp add: power_int_minus round_even_def)

lemma b64_exact:
  "b64 1 = 1" "b64 2 = 2" "b64 4 = 4" "b64 10 = 10" "b64 30 = 30" "b64 40 = 40"
  "b64 190 = 190" "b64 200 = 200" "b64 (1 / 4) = 1 / 4"
  using b64_dyadic[of 1 0] b64_dyadic[of 2 0] b64_dyadic[of 4 0] b64_dyadic[of 10 0]
    b64_dyadic[of 30 0] b64_dyadic[of 40 0] b64_dyadic[of 190 0] b64_dyadic[of 200 0]
    b64_dyadic[of 1 "- 2"]
  by (simp_all add: power_int_minus)

lemma b64_half: "b64 (1 / 2) = 1 / 2" "b64 (- (1 / 2)) = - (1 / 2)"
  using b64_dyadic[of 1 "- 1"] b64_dyadic[of "- 1" "- 1"] by (simp_all add: power_int_minus)

lemma b64_fifth: "b64 (2 / 10) = 3602879701896397 / 2 ^ 54"
  using b64_at[of "- 3" "2 / 10"]
  by (simp add: power_int_minus round_even_def)

lemma b64_three_tenths: "b64 (3 / 10) = 5404319552844595 / 2 ^ 54"
  using b64_at[of "- 2" "3 / 10"]
  by (simp add: power_int_minus round_even_def)

subsection \<open>Rates\<close>

lemma rates_unfold:
  "fillRate (calculatePerformanceMetrics fills cancels rejects lat) =
     (if 0 < length fills + length cancels + length rejects
      then fdiv (real (length fills)) (real (length fills + length cancels + length rejects))
      else 0)"
  "cancelRate (calculatePerformanceMetrics fills cancels rejects lat) =
     (if 0 < length fills + length cancels + length rejects
      then fdiv (real (length cancels)) (real (length fills + length cancels + length rejects))
      else 0)"
  "rejectRate (calculatePerformanceMetrics fills cancels rejects lat) =
     (if 0 < length fills + length cancels + length rejects
      then fdiv (real (length rejects)) (real (length fills + length cancels + length rejects))
      else 0)"
  by (simp_all add: calculatePerformanceMetrics_def Let_def)

lemma rate_error:
  assumes "a \<le> n" and "0 < n"
  shows "\<bar>fdiv (real a) (real n) - real a / real n\<bar> \<le> 1 / 2 ^ 54"
  unfolding fdiv_def using assms by (intro b64_unit_error) simp_all

lemma three_rates:
  "0 < a + b + c \<Longrightarrow>
   real a / real (a + b + c) + real b / real (a + b + c) + real c / real (a + b + c) = 1"
proof -
  assume h: "0 < a + b + c"
  have "real a / real (a + b + c) + real b / real (a + b + c) + real c / real (a + b + c)
        = (real a + real b + real c) / real (a + b + c)"
    by (simp only: add_divide_distrib)
  also have "\<dots> = real (a + b + c) / real (a + b + c)" by simp
  also have "\<dots> = 1" using h by (simp del: of_nat_add)
  finally show ?thesis .
qed

lemma three_rates_rounded:
  assumes "0 < a + b + c"
  defines "n \<equiv> a + b + c"
  shows "\<bar>fdiv (real a) (real n) + fdiv (real b) (real n) + fdiv (real c) (real n) - 1\<bar>
           \<le> 3 / 2 ^ 54"
    and "\<bar>fadd (fadd (fdiv (real a) (real n)) (fdiv (real b) (real n))) (fdiv (real c) (real n))
           - 1\<bar> \<le> 7 / 2 ^ 54"
proof -
  define f where "f = fdiv (real a) (real n)"
  define g where "g = fdiv (real b) (real n)"
  define r where "r = fdiv (real c) (real n)"
  define e :: real where "e = 1 / 2 ^ 54"
  have e: "e = 1 / 18014398509481984" by (simp add: e_def)
  have n: "0 < n" using assms by simp
  have ef: "\<bar>f - real a / real n\<bar> \<le> e"
    unfolding f_def e_def using n by (intro rate_error) (simp_all add: n_def)
  have eg: "\<bar>g - real b / real n\<bar> \<le> e"
    unfolding g_def e_def using n by (intro rate_error) (simp_all add: n_def)
  have er: "\<bar>r - real c / real n\<bar> \<le> e"
    unfolding r_def e_def using n by (intro rate_error) (simp_all add: n_def)
  have s: "real a / real n + real b / real n + real c / real n = 1"
    unfolding n_def using assms(1) by (rule three_rates)
  have x: "\<bar>f + g + r - 1\<bar> \<le> 3 * e" using ef eg er s by linarith
  have pa: "0 \<le> real a / real n" "0 \<le> real b / real n" "0 \<le> real c / real n" by simp_all
  have fg: "\<bar>f + g\<bar> < 2" using ef eg er s pa e by linarith
  have "\<bar>b64 (f + g) - (f + g)\<bar> \<le> 1 / 2 ^ 53" using fg by (rule b64_two_error)
  then have s1: "\<bar>fadd f g - (f + g)\<bar> \<le> 2 * e" by (simp add: fadd_def e)
  have s1r: "\<bar>fadd f g + r\<bar> < 2" using s1 x e by linarith
  have "\<bar>b64 (fadd f g + r) - (fadd f g + r)\<bar> \<le> 1 / 2 ^ 53" using s1r by (rule b64_two_error)
  then have s2: "\<bar>fadd (fadd f g) r - (fadd f g + r)\<bar> \<le> 2 * e" by (simp add: fadd_def[of "fadd f g"] e)
  have y: "\<bar>fadd (fadd f g) r - 1\<bar> \<le> 7 * e" using s1 s2 x by linarith
  show "\<bar>fdiv (real a) (real n) + fdiv (real b) (real n) + fdiv (real c) (real n) - 1\<bar>
           \<le> 3 / 2 ^ 54"
    using x by (simp add: f_def g_def r_def e)
  show "\<bar>fadd (fadd (fdiv (real a) (real n)) (fdiv (real b) (real n))) (fdiv (real c) (real n))
           - 1\<bar> \<le> 7 / 2 ^ 54"
    using y by (simp add: f_def g_def r_def e)
qed

lemma ex_rates:
  "fillRate (calculatePerformanceMetrics
       [ex_fill ''f1'' 1000 Buy 30]
       [ex_cancel ''c1'' 1, ex_cancel ''c2'' 2, ex_cancel ''c3'' 3, ex_cancel ''c4'' 4]
       [ex_reject ''r1'' 5] []) = 6004799503160661 / 2 ^ 55"
  "cancelRate (calculatePerformanceMetrics
       [ex_fill ''f1'' 1000 Buy 30]
       [ex_cancel ''c1'' 1, ex_cancel ''c2'' 2, ex_cancel ''c3'' 3, ex_cancel ''c4'' 4]
       [ex_reject ''r1'' 5] []) = 6004799503160661 / 2 ^ 53"
  "rejectRate (calculatePerformanceMetrics
       [ex_fill ''f1'' 1000 Buy 30]
       [ex_cancel ''c1'' 1, ex_cancel ''c2'' 2, ex_cancel ''c3'' 3, ex_cancel ''c4'' 4]
       [ex_reject ''r1'' 5] []) = 6004799503160661 / 2 ^ 55"
  using b64_sixth b64_two_thirds by (simp_all add: rates_unfold fdiv_def)

lemma ex_rates_sum:
  "fadd (fadd (6004799503160661 / 2 ^ 55) (6004799503160661 / 2 ^ 53))
     (6004799503160661 / 2 ^ 55) = 9007199254740991 / 2 ^ 53"
proof -
  have a: "b64 (30023997515803305 / 2 ^ 55) = 7505999378950826 / 2 ^ 53"
    using b64_at[of "- 1" "30023997515803305 / 2 ^ 55"]
    by (simp add: power_int_minus round_even_def)
  have b: "b64 (36028797018963965 / 2 ^ 55) = 9007199254740991 / 2 ^ 53"
    using b64_at[of "- 1" "36028797018963965 / 2 ^ 55"]
    by (simp add: power_int_minus round_even_def)
  have "fadd (6004799503160661 / 2 ^ 55) (6004799503160661 / 2 ^ 53)
      = 7505999378950826 / 2 ^ 53"
    using a by (simp add: fadd_def)
  moreover have "fadd (7505999378950826 / 2 ^ 53) (6004799503160661 / 2 ^ 55)
      = 9007199254740991 / 2 ^ 53"
    using b by (simp add: fadd_def)
  ultimately show ?thesis by (simp only:)
qed

text \<open>
  C1, as stated, fails: the rates are quotients rounded to binary64 values, and three rounded
  quotients need not add up to one. With one fill, four cancels and one reject the rates are
  the doubles nearest to 1/6, 4/6 and 1/6; added exactly they give \<open>1 - 1 / 2 ^ 54\<close>, and
  added as the source would add them (\<^verbatim>\<open>fillRate + cancelRate + rejectRate\<close>) they give
  \<open>1 - 1 / 2 ^ 53\<close>, which prints as \<^verbatim>\<open>0.9999999999999999\<close>.
\<close>

theorem C1_rates_sum_counterexample:
  "fillRate (calculatePerformanceMetrics
       [ex_fill ''f1'' 1000 Buy 30]
       [ex_cancel ''c1'' 1, ex_cancel ''c2'' 2, ex_cancel ''c3'' 3, ex_cancel ''c4'' 4]
       [ex_reject ''r1'' 5] [])
   + cancelRate (calculatePerformanceMetrics
       [ex_fill ''f1'' 1000 Buy 30]
       [ex_cancel ''c1'' 1, ex_cancel ''c2'' 2, ex_cancel ''c3'' 3, ex_cancel ''c4'' 4]
       [ex_reject ''r1'' 5] [])
   + rejectRate (calculatePerformanceMetrics
       [ex_fill ''f1'' 1000 Buy 30]
       [ex_cancel ''c1'' 1, ex_cancel ''c2'' 2, ex_cancel ''c3'' 3, ex_cancel ''c4'' 4]
       [ex_reject ''r1'' 5] []) = 1 - 1 / 2 ^ 54
   \<and> fadd (fadd
       (fillRate (calculatePerformanceMetrics
          [ex_fill ''f1'' 1000 Buy 30]
          [ex_cancel ''c1'' 1, ex_cancel ''c2'' 2, ex_cancel ''c3'' 3, ex_cancel ''c4'' 4]
          [ex_reject ''r1'' 5] []))
       (cancelRate (calculatePerformanceMetrics
          [ex_fill ''f1'' 1000 Buy 30]
          [ex_cancel ''c1'' 1, ex_cancel ''c2'' 2, ex_cancel ''c3'' 3, ex_cancel ''c4'' 4]
          [ex_reject ''r1'' 5] [])))
       (rejectRate (calculatePerformanceMetrics
          [ex_fill ''f1'' 1000 Buy 30]
          [ex_cancel ''c1'' 1, ex_cancel ''c2'' 2, ex_cancel ''c3'' 3, ex_cancel ''c4'' 4]
          [ex_reject ''r1'' 5] [])) = 1 - 1 / 2 ^ 53"
proof -
  have "(6004799503160661::real) / 2 ^ 55 + 6004799503160661 / 2 ^ 53
        + 6004799503160661 / 2 ^ 55 = 1 - 1 / 2 ^ 54" by simp
  moreover have "(9007199254740991::real) / 2 ^ 53 = 1 - 1 / 2 ^ 53" by simp
  ultimately show ?thesis by (simp only: ex_rates ex_rates_sum)
qed

text \<open>
  C1, amended. For every input event set with at least one order (\<open>totalOrders\<close> is the number
  of fills plus cancels plus rejects), each of the three rates returned by
  \<open>calculatePerformanceMetrics\<close> is its count divided by \<open>totalOrders\<close>, rounded to a binary64
  value, so within \<open>1 / 2 ^ 54\<close> of the exact quotient; the three rates add up to one within
  \<open>3 / 2 ^ 54\<close>, and within \<open>7 / 2 ^ 54\<close> when they are added in binary64 arithmetic. When
  there is no order all three rates are zero.
\<close>

theorem C1_rates_sum_near_one:
  "(0 < length fills + length cancels + length rejects \<longrightarrow>
      \<bar>fillRate (calculatePerformanceMetrics fills cancels rejects lat)
         - real (length fills) / real (length fills + length cancels + length rejects)\<bar>
         \<le> 1 / 2 ^ 54
      \<and> \<bar>cancelRate (calculatePerformanceMetrics fills cancels rejects lat)
         - real (length cancels) / real (length fills + length cancels + length rejects)\<bar>
         \<le> 1 / 2 ^ 54
      \<and> \<bar>rejectRate (calculatePerformanceMetrics fills cancels rejects lat)
         - real (length rejects) / real (length fills + length cancels + length rejects)\<bar>
         \<le> 1 / 2 ^ 54
      \<and> \<bar>fillRate (calculatePerformanceMetrics fills cancels rejects lat)
         + cancelRate (calculatePerformanceMetrics fills cancels rejects lat)
         + rejectRate (calculatePerformanceMetrics fills cancels rejects lat) - 1\<bar>
         \<le> 3 / 2 ^ 54
      \<and> \<bar>fadd (fadd (fillRate (calculatePerformanceMetrics fills cancels rejects lat))
                   (cancelRate (calculatePerformanceMetrics fills cancels rejects lat)))
           (rejectRate (calculatePerformanceMetrics fills cancels rejects lat)) - 1\<bar>
         \<le> 7 / 2 ^ 54)
   \<and> (length fills + length cancels + length rejects = 0 \<longrightarrow>
      fillRate (calculatePerformanceMetrics fills cancels rejects lat) = 0
      \<and> cancelRate (calculatePerformanceMetrics fills cancels rejects lat) = 0
      \<and> rejectRate (calculatePerformanceMetrics fills cancels rejects lat) = 0)"
proof (cases "0 < length fills + length cancels + length rejects")
  case True
  have a: "\<bar>fdiv (real (length fills)) (real (length fills + length cancels + length rejects))
      - real (length fills) / real (length fills + length cancels + length rejects)\<bar>
      \<le> 1 / 2 ^ 54"
    using True by (intro rate_error) simp_all
  have b: "\<bar>fdiv (real (length cancels)) (real (length fills + length cancels + length rejects))
      - real (length cancels) / real (length fills + length cancels + length rejects)\<bar>
      \<le> 1 / 2 ^ 54"
    using True by (intro rate_error) simp_all
  have c: "\<bar>fdiv (real (length rejects)) (real (length fills + length cancels + length rejects))
      - real (length rejects) / real (length fills + length cancels + length rejects)\<bar>
      \<le> 1 / 2 ^ 54"
    using True by (intro rate_error) simp_all
  note d = three_rates_rounded[OF True]
  have "length fills + length cancels + length rejects \<noteq> 0" using True by simp
  then show ?thesis
    using True a b c d by (simp only: rates_unfold if_True simp_thms)
next
  case False
  then show ?thesis by (simp add: rates_unfold)
qed

theorem C1_rates_sum_near_one_witness:
  "\<bar>fillRate (calculatePerformanceMetrics
       [ex_fill ''f1'' 1000 Buy 30]
       [ex_cancel ''c1'' 1, ex_cancel ''c2'' 2, ex_cancel ''c3'' 3, ex_cancel ''c4'' 4]
       [ex_reject ''r1'' 5] [])
   + cancelRate (calculatePerformanceMetrics
       [ex_fill ''f1'' 1000 Buy 30]
       [ex_cancel ''c1'' 1, ex_cancel ''c2'' 2, ex_cancel ''c3'' 3, ex_cancel ''c4'' 4]
       [ex_reject ''r1'' 5] [])
   + rejectRate (calculatePerformanceMetrics
       [ex_fill ''f1'' 1000 Buy 30]
       [ex_cancel ''c1'' 1, ex_cancel ''c2'' 2, ex_cancel ''c3'' 3, ex_cancel ''c4'' 4]
       [ex_reject ''r1'' 5] []) - 1\<bar> \<le> 3 / 2 ^ 54
   \<and> fillRate (calculatePerformanceMetrics [] [] [] []) = 0
   \<and> cancelRate (calculatePerformanceMetrics [] [] [] []) = 0
   \<and> rejectRate (calculatePerformanceMetrics [] [] [] []) = 0"
  using C1_rates_sum_near_one[of "[ex_fill ''f1'' 1000 Buy 30]"
      "[ex_cancel ''c1'' 1, ex_cancel ''c2'' 2, ex_cancel ''c3'' 3, ex_cancel ''c4'' 4]"
      "[ex_reject ''r1'' 5]" "[]"]
    C1_rates_sum_near_one[of "[]" "[]" "[]" "[]"]
  by simp

subsection \<open>Latency percentiles\<close>

lemma getPercentile_mono:
  assumes "sorted xs" and "xs \<noteq> []" and "p \<le> q"
  shows "getPercentile xs p \<le> getPercentile xs q"
proof -
  have "real (length xs) * p \<le> real (length xs) * q"
    using assms(3) by (simp add: mult_left_mono)
  then have "nat \<lfloor>real (length xs) * p\<rfloor> \<le> nat \<lfloor>real (length xs) * q\<rfloor>"
    by (intro nat_mono floor_mono)
  then have le: "min (nat \<lfloor>real (length xs) * p\<rfloor>) (length xs - 1)
      \<le> min (nat \<lfloor>real (length xs) * q\<rfloor>) (length xs - 1)"
    by simp
  have "0 < length xs" using assms(2) by simp
  then have "min (nat \<lfloor>real (length xs) * q\<rfloor>) (length xs - 1) < length xs"
    by arith
  with le assms(1) show ?thesis
    unfolding getPercentile_def by (simp add: sorted_nth_mono)
qed

text \<open>
  C2. For every list of latency samples the percentiles of \<open>calculateLatencyPercentiles\<close> are
  non-decreasing, \<open>p50 \<le> p95 \<le> p99\<close>: each is the element of the ascending latencies at
  index \<open>floor (n * p)\<close>, at most \<open>n - 1\<close>, and the empty input yields zero for all three.
\<close>

theorem C2_percentiles_monotone:
  "p50 (calculateLatencyPercentiles metrics) \<le> p95 (calculateLatencyPercentiles metrics)
   \<and> p95 (calculateLatencyPercentiles metrics) \<le> p99 (calculateLatencyPercentiles metrics)
   \<and> (metrics = [] \<longrightarrow>
        p50 (calculateLatencyPercentiles metrics) = 0
        \<and> p95 (calculateLatencyPercentiles metrics) = 0
        \<and> p99 (calculateLatencyPercentiles metrics) = 0)
   \<and> (metrics \<noteq> [] \<longrightarrow>
        p50 (calculateLatencyPercentiles metrics)
          = sort (map lm_latency_ms metrics)
              ! min (nat \<lfloor>real (length metrics) * (5 / 10)\<rfloor>) (length metrics - 1)
        \<and> p95 (calculateLatencyPercentiles metrics)
          = sort (map lm_latency_ms metrics)
              ! min (nat \<lfloor>real (length metrics) * (95 / 100)\<rfloor>) (length metrics - 1)
        \<and> p99 (calculateLatencyPercentiles metrics)
          = sort (map lm_latency_ms metrics)
              ! min (nat \<lfloor>real (length metrics) * (99 / 100)\<rfloor>) (length metrics - 1))"
proof (cases "metrics = []")
  case True
  then show ?thesis by (simp add: calculateLatencyPercentiles_def)
next
  case False
  let ?xs = "sort (map lm_latency_ms metrics)"
  have s: "sorted ?xs" by simp
  have "length ?xs = length metrics" by simp
  with False have ne: "?xs \<noteq> []" by (metis length_0_conv)
  have a: "getPercentile ?xs (5 / 10) \<le> getPercentile ?xs (95 / 100)"
    by (rule getPercentile_mono[OF s ne]) simp
  have b: "getPercentile ?xs (95 / 100) \<le> getPercentile ?xs (99 / 100)"
    by (rule getPercentile_mono[OF s ne]) simp
  have c: "calculateLatencyPercentiles metrics =
       \<lparr>p50 = getPercentile ?xs (5 / 10), p95 = getPercentile ?xs (95 / 100),
        p99 = getPercentile ?xs (99 / 100),
        avg = fdiv (fsum ?xs) (real (length ?xs))\<rparr>"
    using False by (simp add: calculateLatencyPercentiles_def Let_def)
  have d: "getPercentile ?xs p = ?xs ! min (nat \<lfloor>real (length metrics) * p\<rfloor>) (length metrics - 1)" for p
    by (simp add: getPercentile_def)
  show ?thesis using False a b unfolding c by (simp add: d)
qed

theorem C2_percentiles_monotone_witness:
  "p50 (calculateLatencyPercentiles [ex_latency ''a'' 1 30, ex_latency ''b'' 2 10, ex_latency ''c'' 3 20]) = 20
   \<and> p95 (calculateLatencyPercentiles [ex_latency ''a'' 1 30, ex_latency ''b'' 2 10, ex_latency ''c'' 3 20]) = 30
   \<and> p99 (calculateLatencyPercentiles [ex_latency ''a'' 1 30, ex_latency ''b'' 2 10, ex_latency ''c'' 3 20]) = 30
   \<and> p50 (calculateLatencyPercentiles []) = 0"
  using C2_percentiles_monotone[of "[ex_latency ''a'' 1 30, ex_latency ''b'' 2 10, ex_latency ''c'' 3 20]"]
    C2_percentiles_monotone[of "[]"]
  by (simp add: ex_latency_def)

subsection \<open>The simulator without parameters\<close>

lemma calculateStrategyMetrics_filtered:
  "calculateStrategyMetrics h w sid
     (filter (\<lambda>f. fill_strategy_id f = sid) fills)
     (filter (\<lambda>c. cancel_strategy_id c = sid) cancels)
     (filter (\<lambda>r. reject_strategy_id r = sid) rejects)
     (filter (\<lambda>m. lm_strategy_id m = sid) lat)
   = calculateStrategyMetrics h w sid fills cancels rejects lat"
  by (simp add: calculateStrategyMetrics_def)

lemma projected_metrics_no_parameters:
  "projected_metrics (fst (simulateScenario h w strategyId fills cancels rejects lat no_parameters))
   = fst (calculateStrategyMetrics h w strategyId fills cancels rejects lat)"
proof -
  have "projected_metrics (fst (simulateScenario h w strategyId fills cancels rejects lat no_parameters))
     = fst (calculateStrategyMetrics h w strategyId
         (filter (\<lambda>f. fill_strategy_id f = strategyId) fills)
         (filter (\<lambda>c. cancel_strategy_id c = strategyId) cancels)
         (filter (\<lambda>r. reject_strategy_id r = strategyId) rejects)
         (filter (\<lambda>m. lm_strategy_id m = strategyId) lat))"
    by (simp add: simulateScenario_def no_parameters_def truthy_def Let_def split_def)
  then show ?thesis by (simp only: calculateStrategyMetrics_filtered)
qed

text \<open>
  C3. For every strategy id and every input event set, \<open>simulateScenario\<close> called with the
  empty parameters object returns projected metrics identical to the result of
  \<open>calculateStrategyMetrics\<close> on the same, unmodified event set (both started in the same
  state of the clock, whose date the metrics carry).
\<close>

theorem C3_no_parameters:
  "projected_metrics (fst (simulateScenario h w strategyId fills cancels rejects lat no_parameters))
   = fst (calculateStrategyMetrics h w strategyId fills cancels rejects lat)"
  by (rule projected_metrics_no_parameters)

theorem C3_no_parameters_witness:
  "total_fills (projected_metrics (fst (simulateScenario ex_host (ex_world 0) ''S1''
      [ex_fill ''f1'' 1000 Buy 30, ex_fill ''f2'' 2000 Sell 10] [ex_cancel ''c1'' 1500] [] []
      no_parameters))) = 2
   \<and> total_cancels (projected_metrics (fst (simulateScenario ex_host (ex_world 0) ''S1''
      [ex_fill ''f1'' 1000 Buy 30, ex_fill ''f2'' 2000 Sell 10] [ex_cancel ''c1'' 1500] [] []
      no_parameters))) = 1"
  using C3_no_parameters[of ex_host "ex_world 0" "''S1''"
      "[ex_fill ''f1'' 1000 Buy 30, ex_fill ''f2'' 2000 Sell 10]" "[ex_cancel ''c1'' 1500]" "[]" "[]"]
  by (simp add: calculateStrategyMetrics_def Let_def split_def ex_fill_def ex_cancel_def)

subsection \<open>The position-size stage\<close>







subsection \<open>Parameters set to zero\<close>

lemma truthy_absent_if_zero: "truthy (absent_if_zero p) = truthy p"
  by (simp add: truthy_def absent_if_zero_def split: option.splits)

lemma the_absent_if_zero: "truthy p \<Longrightarrow> the (absent_if_zero p) = the p"
  by (simp add: truthy_def absent_if_zero_def split: option.splits)

lemma generateScenarioName_zeros:
  "generateScenarioName h (zeros_as_absent ps) = generateScenarioName h ps"
  by (simp add: generateScenarioName_def zeros_as_absent_def truthy_absent_if_zero
      the_absent_if_zero cong: if_cong)

lemma simulateScenario_zeros:
  "simulateScenario h w sid fills cancels rejects lat ps =
     (fst (simulateScenario h w sid fills cancels rejects lat (zeros_as_absent ps))
        \<lparr>parameters := ps\<rparr>,
      snd (simulateScenario h w sid fills cancels rejects lat (zeros_as_absent ps)))"
  unfolding simulateScenario_def generateScenarioName_zeros
  by (simp add: zeros_as_absent_def truthy_absent_if_zero the_absent_if_zero Let_def split_def
      cong: if_cong)

lemma default_name: "generateScenarioName h no_parameters = ''Default Scenario''"
  by (simp add: generateScenarioName_def no_parameters_def truthy_def)

text \<open>
  C10. A simulation parameter set to 0 is treated by \<open>simulateScenario\<close> exactly as if the
  field were absent: the result is the one for the parameters with every zero read as absent
  (its stage skipped, the metrics unscaled), but for the \<open>parameters\<close> field, which echoes
  the object given. When every field is 0 or absent the scenario is named
  \<open>Default Scenario\<close> and its metrics are those of \<open>calculateStrategyMetrics\<close>.
\<close>

theorem C10_zero_parameter_is_absent:
  "simulateScenario h w strategyId fills cancels rejects lat ps =
     (fst (simulateScenario h w strategyId fills cancels rejects lat (zeros_as_absent ps))
        \<lparr>parameters := ps\<rparr>,
      snd (simulateScenario h w strategyId fills cancels rejects lat (zeros_as_absent ps)))
   \<and> (zeros_as_absent ps = no_parameters \<longrightarrow>
        sc_name (fst (simulateScenario h w strategyId fills cancels rejects lat ps))
          = ''Default Scenario''
        \<and> projected_metrics (fst (simulateScenario h w strategyId fills cancels rejects lat ps))
          = fst (calculateStrategyMetrics h w strategyId fills cancels rejects lat))"
proof -
  have "sc_name (fst (simulateScenario h w strategyId fills cancels rejects lat ps))
          = ''Default Scenario''
        \<and> projected_metrics (fst (simulateScenario h w strategyId fills cancels rejects lat ps))
          = fst (calculateStrategyMetrics h w strategyId fills cancels rejects lat)"
    if z: "zeros_as_absent ps = no_parameters"
  proof -
    have n: "sc_name (fst (simulateScenario h w strategyId fills cancels rejects lat ps))
        = generateScenarioName h ps"
      by (simp add: simulateScenario_def Let_def split_def)
    have "generateScenarioName h ps = generateScenarioName h no_parameters"
      using generateScenarioName_zeros[of h ps] z by simp
    with n have 1: "sc_name (fst (simulateScenario h w strategyId fills cancels rejects lat ps))
          = ''Default Scenario''"
      by (simp add: default_name)
    have "projected_metrics (fst (simulateScenario h w strategyId fills cancels rejects lat ps))
       = projected_metrics (fst (simulateScenario h w strategyId fills cancels rejects lat
            (zeros_as_absent ps)))"
      by (subst simulateScenario_zeros) simp
    also have "\<dots> = fst (calculateStrategyMetrics h w strategyId fills cancels rejects lat)"
      unfolding z by (rule projected_metrics_no_parameters)
    finally show ?thesis using 1 by simp
  qed
  with simulateScenario_zeros[of h w strategyId fills cancels rejects lat ps] show ?thesis
    by blast
qed

theorem C10_zero_parameter_is_absent_witness:
  "sc_name (fst (simulateScenario ex_host (ex_world 0) ''S1''
      [ex_fill ''f1'' 1000 Buy 30, ex_fill ''f2'' 2000 Buy 40] [] [] []
      \<lparr>max_position_size = Some 0, order_timeout_ms = Some 0, min_fill_rate = Some 0,
       max_latency_ms = None, risk_multiplier = Some 0\<rparr>)) = ''Default Scenario''
   \<and> total_fills (projected_metrics (fst (simulateScenario ex_host (ex_world 0) ''S1''
      [ex_fill ''f1'' 1000 Buy 30, ex_fill ''f2'' 2000 Buy 40] [] [] []
      \<lparr>max_position_size = Some 0, order_timeout_ms = Some 0, min_fill_rate = Some 0,
       max_latency_ms = None, risk_multiplier = Some 0\<rparr>))) = 2"
proof -
  have z: "zeros_as_absent \<lparr>max_position_size = Some 0, order_timeout_ms = Some 0,
      min_fill_rate = Some 0, max_latency_ms = None, risk_multiplier = Some 0\<rparr> = no_parameters"
    by (simp add: zeros_as_absent_def absent_if_zero_def no_parameters_def)
  from C10_zero_parameter_is_absent[of ex_host "ex_world 0" "''S1''"
      "[ex_fill ''f1'' 1000 Buy 30, ex_fill ''f2'' 2000 Buy 40]" "[]" "[]" "[]"
      "\<lparr>max_position_size = Some 0, order_timeout_ms = Some 0, min_fill_rate = Some 0,
       max_latency_ms = None, risk_multiplier = Some 0\<rparr>", THEN conjunct2, rule_format, OF z]
  show ?thesis
    by (simp add: calculateStrategyMetrics_def Let_def split_def ex_fill_def)
qed

subsection \<open>compareScenarios\<close>





subsection \<open>The unguarded division\<close>

lemma currentFillRate_None:
  "currentFillRate fills cancels rejects = None \<longleftrightarrow> fills = [] \<and> cancels = [] \<and> rejects = []"
proof -
  have "real (length fills + length cancels + length rejects) = 0
      \<longleftrightarrow> length fills + length cancels + length rejects = 0"
    by (simp only: of_nat_eq_0_iff)
  then show ?thesis by (simp add: currentFillRate_def js_div_def del: of_nat_add)
qed

lemma applyMinFillRate_empty: "applyMinFillRate w [] [] [] m = (([], [], []), w)"
  by (simp add: applyMinFillRate_def currentFillRate_def js_div_def slice_def rel_index_def
      fmul_def b64_def)

text \<open>
  C9. The claim asks that every division whose denominator may be zero substitutes 1 or
  yields a rate of 0. The division \<^verbatim>\<open>fills.length / totalOrders\<close> of \<open>applyMinFillRate\<close> does
  neither: for a strategy without any order it is \<^verbatim>\<open>0 / 0\<close>, that is \<^verbatim>\<open>NaN\<close> (\<open>None\<close>), where
  the same quotient in \<open>calculatePerformanceMetrics\<close> is guarded by \<^verbatim>\<open>totalOrders > 0\<close> and
  yields 0. The comparison \<^verbatim>\<open>NaN >= minFillRate\<close> is false, so the stage goes on to convert
  cancels, of which there are none, and hands back the empty lists.
\<close>

theorem C9_unguarded_division:
  "currentFillRate [] [] [] = None
   \<and> fillRate (calculatePerformanceMetrics [] [] [] []) = 0
   \<and> applyMinFillRate (ex_world 0) [] [] [] (1 / 2) = (([], [], []), ex_world 0)"
  by (simp add: currentFillRate_None applyMinFillRate_empty calculatePerformanceMetrics_def
      Let_def)

subsection \<open>Time series\<close>

lemma map_of_map_set: "map_of (map_set k v m) = (map_of m)(k \<mapsto> v)"
  by (induction m) (auto simp: fun_eq_iff)

lemma keys_map_set: "fst ` set (map_set k v m) = insert k (fst ` set m)"
proof -
  have "dom (map_of (map_set k v m)) = insert k (dom (map_of m))"
    by (simp add: map_of_map_set)
  then show ?thesis by (simp add: dom_map_of_conv_image_fst)
qed

lemma distinct_map_set: "distinct (map fst m) \<Longrightarrow> distinct (map fst (map_set k v m))"
proof (induction m)
  case Nil
  show ?case by simp
next
  case (Cons a m)
  then show ?case using keys_map_set[of k v m] by (cases a) auto
qed

lemma map_of_group_step:
  "map_of (group_step key init upd m x) = (map_of m)(key x \<mapsto> upd (current init m (key x)) x)"
  by (auto simp: group_step_def map_of_map_set map_has_def map_get_def current_def Let_def fun_eq_iff)

lemma distinct_group_step:
  "distinct (map fst m) \<Longrightarrow> distinct (map fst (group_step key init upd m x))"
  by (simp add: group_step_def distinct_map_set Let_def)

lemma distinct_group_fold:
  "distinct (map fst m) \<Longrightarrow> distinct (map fst (foldl (group_step key init upd) m xs))"
  by (induction xs arbitrary: m) (simp_all add: distinct_group_step)

lemma map_of_group_fold:
  "map_of (foldl (group_step key init upd) m xs) k =
     (if k \<in> key ` set xs
      then Some (foldl upd (current init m k) (filter (\<lambda>x. key x = k) xs))
      else map_of m k)"
proof (induction xs arbitrary: m)
  case Nil
  show ?case by simp
next
  case (Cons x xs)
  show ?case
  proof (cases "key x = k")
    case True
    then have c: "current init (group_step key init upd m x) k = upd (current init m k) x"
      by (simp add: current_def map_of_group_step)
    have e: "k \<notin> key ` set xs \<Longrightarrow> filter (\<lambda>x. key x = k) xs = []"
      by (auto simp: filter_empty_conv)
    show ?thesis using True e by (simp add: Cons.IH c map_of_group_step)
  next
    case False
    then have c: "current init (group_step key init upd m x) k = current init m k"
      by (simp add: current_def map_of_group_step)
    show ?thesis using False by (auto simp add: Cons.IH c map_of_group_step)
  qed
qed

lemma keys_group_fold:
  "fst ` set (foldl (group_step key init upd) [] xs) = key ` set xs"
proof -
  have "dom (map_of (foldl (group_step key init upd) [] xs)) = key ` set xs"
    by (auto simp: dom_def map_of_group_fold)
  then show ?thesis by (simp add: dom_map_of_conv_image_fst)
qed

lemma windowStart_inj: "w \<noteq> 0 \<Longrightarrow> inj (windowStart w)"
  by (rule injI) (simp add: windowStart_def)

lemma distinct_map_inj: "inj f \<Longrightarrow> distinct xs \<Longrightarrow> distinct (map f xs)"
  by (simp add: distinct_map inj_on_subset[OF _ subset_UNIV])

lemma alist_set_conv:
  "distinct (map fst m) \<Longrightarrow> (k, v) \<in> set m \<longleftrightarrow> map_of m k = Some v"
  by simp

lemma series_unique:
  fixes val :: "'v \<Rightarrow> real"
  assumes w: "w \<noteq> 0" and d: "distinct (map fst m)" and d': "distinct (map fst m')"
    and eq: "\<And>k. map_option val (map_of m k) = map_option val (map_of m' k)"
  shows "sort_key point_timestamp
           (map (\<lambda>(k, v). \<lparr>point_timestamp = windowStart w k, point_value = val v\<rparr>) m)
       = sort_key point_timestamp
           (map (\<lambda>(k, v). \<lparr>point_timestamp = windowStart w k, point_value = val v\<rparr>) m')"
proof -
  let ?mk = "\<lambda>(k, v). \<lparr>point_timestamp = windowStart w k, point_value = val v\<rparr>"
  have ts: "map point_timestamp (map ?mk n) = map (windowStart w) (map fst n)" for n :: "(int \<times> 'v) list"
    by (simp add: case_prod_unfold comp_def)
  have dist: "distinct (map point_timestamp (map ?mk n))" if "distinct (map fst n)" for n :: "(int \<times> 'v) list"
    by (simp only: ts distinct_map_inj[OF windowStart_inj[OF w] that])
  have setchar: "set (map ?mk n)
      = {p. \<exists>k x. map_option val (map_of n k) = Some x
             \<and> p = \<lparr>point_timestamp = windowStart w k, point_value = x\<rparr>}"
    if dn: "distinct (map fst n)" for n :: "(int \<times> 'v) list"
  proof (rule set_eqI, rule iffI)
    fix p assume "p \<in> set (map ?mk n)"
    then obtain k v where kv: "(k, v) \<in> set n" and p: "p = ?mk (k, v)" by auto
    from kv dn have "map_of n k = Some v" by simp
    with p show "p \<in> {p. \<exists>k x. map_option val (map_of n k) = Some x
             \<and> p = \<lparr>point_timestamp = windowStart w k, point_value = x\<rparr>}"
      by auto
  next
    fix p assume "p \<in> {p. \<exists>k x. map_option val (map_of n k) = Some x
             \<and> p = \<lparr>point_timestamp = windowStart w k, point_value = x\<rparr>}"
    then obtain k x where m: "map_option val (map_of n k) = Some x"
      and p: "p = \<lparr>point_timestamp = windowStart w k, point_value = x\<rparr>" by auto
    from m obtain v where v: "map_of n k = Some v" and x: "x = val v" by auto
    from v have "(k, v) \<in> set n" by (rule map_of_SomeD)
    then have "?mk (k, v) \<in> set (map ?mk n)" by (force simp: image_iff)
    with p x show "p \<in> set (map ?mk n)" by simp
  qed
  have "set (map ?mk m) = set (map ?mk m')"
    unfolding setchar[OF d] setchar[OF d'] by (simp add: eq)
  moreover have "distinct (map ?mk m)" "distinct (map ?mk m')"
    using dist[OF d] dist[OF d'] by (simp_all only: distinct_map)
  ultimately have ms: "mset (map ?mk m) = mset (map ?mk m')"
    by (simp only: set_eq_iff_mset_eq_distinct)
  have inj: "inj_on point_timestamp (set (map ?mk m))"
    using dist[OF d] by (simp only: distinct_map)
  show ?thesis
  proof (rule sort_key_inj_key_eq[OF _ inj])
    show "mset (map ?mk m) = mset (sort_key point_timestamp (map ?mk m'))"
      by (simp only: ms mset_sort)
    show "sorted (map point_timestamp (sort_key point_timestamp (map ?mk m')))"
      by (rule sorted_sort_key)
  qed
qed

lemma series_timestamps:
  assumes w: "w \<noteq> 0" and d: "distinct (map fst m)"
  shows "sorted (map point_timestamp (sort_key point_timestamp
           (map (\<lambda>(k, v). \<lparr>point_timestamp = windowStart w k, point_value = val v\<rparr>) m)))
     \<and> distinct (map point_timestamp (sort_key point_timestamp
           (map (\<lambda>(k, v). \<lparr>point_timestamp = windowStart w k, point_value = val v\<rparr>) m)))
     \<and> set (map point_timestamp (sort_key point_timestamp
           (map (\<lambda>(k, v). \<lparr>point_timestamp = windowStart w k, point_value = val v\<rparr>) m)))
       = windowStart w ` fst ` set m"
proof -
  let ?mk = "\<lambda>(k, v). \<lparr>point_timestamp = windowStart w k, point_value = val v\<rparr>"
  have ts: "map point_timestamp (map ?mk m) = map (windowStart w) (map fst m)"
    by (simp add: case_prod_unfold comp_def)
  have dist: "distinct (map point_timestamp (map ?mk m))"
    by (simp only: ts distinct_map_inj[OF windowStart_inj[OF w] d])
  have "distinct (map point_timestamp (sort_key point_timestamp (map ?mk m)))
      = distinct (map point_timestamp (map ?mk m))"
    by (simp only: distinct_map distinct_sort set_sort)
  with dist have "distinct (map point_timestamp (sort_key point_timestamp (map ?mk m)))"
    by simp
  moreover have "set (map point_timestamp (sort_key point_timestamp (map ?mk m)))
      = windowStart w ` fst ` set m"
  proof -
    have "set (map point_timestamp (sort_key point_timestamp (map ?mk m)))
        = set (map point_timestamp (map ?mk m))"
      by (simp only: set_map set_sort)
    also have "\<dots> = windowStart w ` fst ` set m"
      by (simp only: ts set_map)
    finally show ?thesis .
  qed
  moreover have "sorted (map point_timestamp (sort_key point_timestamp (map ?mk m)))"
    by (rule sorted_sort_key)
  ultimately show ?thesis by blast
qed

lemma group_fold_same_order:
  fixes key :: "'x \<Rightarrow> 'k"
  assumes "\<And>k. filter (\<lambda>x. key x = k) xs' = filter (\<lambda>x. key x = k) xs"
  shows "map_of (foldl (group_step key init upd) [] xs') k
       = map_of (foldl (group_step key init upd) [] xs) k"
proof -
  have m: "k \<in> key ` set ys \<longleftrightarrow> filter (\<lambda>x. key x = k) ys \<noteq> []" for ys :: "'x list"
    by (auto simp: filter_empty_conv)
  have "k \<in> key ` set xs' \<longleftrightarrow> k \<in> key ` set xs" by (simp only: m assms)
  then show ?thesis by (simp only: map_of_group_fold assms)
qed

lemma same_order_all:
  assumes "same_order_within_windows w stamp xs' xs"
  shows "filter (\<lambda>x. windowKey w (stamp x) = k) xs' = filter (\<lambda>x. windowKey w (stamp x) = k) xs"
proof (cases "k \<in> set (map (\<lambda>x. windowKey w (stamp x)) (xs' @ xs))")
  case True
  with assms show ?thesis unfolding same_order_within_windows_def by blast
next
  case False
  then have "filter (\<lambda>x. windowKey w (stamp x) = k) xs' = []"
    and "filter (\<lambda>x. windowKey w (stamp x) = k) xs = []"
    by (auto simp: filter_empty_conv)
  then show ?thesis by simp
qed

lemma sorted_windows_unique:
  assumes d': "distinct (map fst m')" and d: "distinct (map fst m)"
    and eq: "\<And>k. map_of m' k = map_of m k"
  shows "sort_key fst m' = sort_key fst m"
proof -
  have "map_of m' = map_of m" using eq by (rule ext)
  then have "set m' = set m" using map_of_inject_set[OF d' d] by simp
  moreover have "distinct m'" "distinct m"
    using d' d by (simp_all only: distinct_map)
  ultimately have ms: "mset m' = mset m"
    by (simp only: set_eq_iff_mset_eq_distinct)
  have inj: "inj_on fst (set m')" using d' by (simp only: distinct_map)
  show ?thesis
  proof (rule sort_key_inj_key_eq[OF _ inj])
    show "mset m' = mset (sort_key fst m)" by (simp only: ms mset_sort)
    show "sorted (map fst (sort_key fst m))" by (rule sorted_sort_key)
  qed
qed

lemma one_point_per_window_unique:
  assumes "one_point_per_window w stamps' series'" and "one_point_per_window w stamps series"
    and "set stamps' = set stamps"
  shows "map point_timestamp series' = map point_timestamp series"
proof (rule sorted_distinct_set_unique)
  show "sorted (map point_timestamp series')" "distinct (map point_timestamp series')"
    using assms(1) by (simp_all add: one_point_per_window_def)
  show "sorted (map point_timestamp series)" "distinct (map point_timestamp series)"
    using assms(2) by (simp_all add: one_point_per_window_def)
  show "set (map point_timestamp series') = set (map point_timestamp series)"
    using assms by (simp only: one_point_per_window_def)
qed

lemma length_filter_perm:
  assumes "mset xs = mset ys"
  shows "length (filter P xs) = length (filter P ys)"
proof -
  have "mset (filter P xs) = mset (filter P ys)" using assms by simp
  then show ?thesis by (rule mset_eq_length)
qed

lemma volume_step_group:
  "volume_step w = group_step (\<lambda>f. windowKey w (fill_timestamp f)) 0
     (\<lambda>v f. fadd v (fill_quantity f))"
  by (intro ext) (simp add: volume_step_def group_step_def Let_def)

lemma volume_same_order:
  assumes "w \<noteq> 0" and "same_order_within_windows w fill_timestamp fills' fills"
  shows "calculateVolumeTimeSeries fills' w = calculateVolumeTimeSeries fills w"
  unfolding calculateVolumeTimeSeries_def Let_def
proof (rule series_unique[where val = "\<lambda>v. v", OF assms(1)])
  show "distinct (map fst (foldl (volume_step w) [] fills'))"
    unfolding volume_step_group by (rule distinct_group_fold) simp
  show "distinct (map fst (foldl (volume_step w) [] fills))"
    unfolding volume_step_group by (rule distinct_group_fold) simp
  show "map_option (\<lambda>v. v) (map_of (foldl (volume_step w) [] fills') k)
      = map_option (\<lambda>v. v) (map_of (foldl (volume_step w) [] fills) k)" for k
    unfolding volume_step_group
    by (simp only: group_fold_same_order[of "\<lambda>f. windowKey w (fill_timestamp f)",
          OF same_order_all[OF assms(2)]])
qed

lemma volume_timestamps:
  assumes "w \<noteq> 0"
  shows "one_point_per_window w (map fill_timestamp fills) (calculateVolumeTimeSeries fills w)"
proof -
  have d: "distinct (map fst (foldl (volume_step w) [] fills))"
    unfolding volume_step_group by (rule distinct_group_fold) simp
  have k: "fst ` set (foldl (volume_step w) [] fills) = (\<lambda>f. windowKey w (fill_timestamp f)) ` set fills"
    unfolding volume_step_group by (rule keys_group_fold)
  show ?thesis
    unfolding calculateVolumeTimeSeries_def Let_def one_point_per_window_def
    using series_timestamps[OF assms d, where val = "\<lambda>v. v"]
    by (simp only: k image_image set_map)
qed

lemma fillRate_step_group:
  "fillRate_step w = group_step (\<lambda>e. windowKey w (fst e)) \<lparr>rw_fills = 0, rw_total = 0\<rparr> rate_upd"
  by (intro ext) (simp add: fillRate_step_def group_step_def rate_upd_def Let_def)

lemma foldl_rate_upd:
  "foldl rate_upd win es =
     \<lparr>rw_fills = rw_fills win + length (filter (\<lambda>e. snd e = Fill_event) es),
      rw_total = rw_total win + length es\<rparr>"
  by (induction es arbitrary: win) (simp_all add: rate_upd_def Let_def)

lemma rate_windows_perm:
  assumes "mset es' = mset es"
  shows "map_of (foldl (fillRate_step w) [] es') k = map_of (foldl (fillRate_step w) [] es) k"
proof -
  have s: "set es' = set es" using assms by (rule mset_eq_setD)
  have l: "length (filter (\<lambda>e. windowKey w (fst e) = k) es')
      = length (filter (\<lambda>e. windowKey w (fst e) = k) es)"
    by (rule length_filter_perm[OF assms])
  have "mset (filter (\<lambda>e. windowKey w (fst e) = k) es')
      = mset (filter (\<lambda>e. windowKey w (fst e) = k) es)"
    using assms by simp
  then have f: "length (filter (\<lambda>e. snd e = Fill_event) (filter (\<lambda>e. windowKey w (fst e) = k) es'))
      = length (filter (\<lambda>e. snd e = Fill_event) (filter (\<lambda>e. windowKey w (fst e) = k) es))"
    by (rule length_filter_perm)
  show ?thesis
    unfolding fillRate_step_group map_of_group_fold s foldl_rate_upd
    by (simp only: l f)
qed

lemma all_events_perm:
  assumes "mset fills' = mset fills" and "mset cancels' = mset cancels"
    and "mset rejects' = mset rejects"
  shows "mset (all_events fills' cancels' rejects') = mset (all_events fills cancels rejects)"
  using assms by (simp add: all_events_def)

lemma fillRate_unfold:
  "calculateFillRateTimeSeries fills cancels rejects w =
     sort_key point_timestamp
       (map (\<lambda>(key, win).
               \<lparr>point_timestamp = windowStart w key,
                point_value = (if rw_total win > 0
                               then fdiv (real (rw_fills win)) (real (rw_total win)) else 0)\<rparr>)
          (foldl (fillRate_step w) [] (all_events fills cancels rejects)))"
  by (simp add: calculateFillRateTimeSeries_def all_events_def Let_def)

lemma fillRate_perm:
  assumes "w \<noteq> 0" and "mset fills' = mset fills" and "mset cancels' = mset cancels"
    and "mset rejects' = mset rejects"
  shows "calculateFillRateTimeSeries fills' cancels' rejects' w
       = calculateFillRateTimeSeries fills cancels rejects w"
  unfolding fillRate_unfold
proof (rule series_unique[where val = "\<lambda>win. if rw_total win > 0
          then fdiv (real (rw_fills win)) (real (rw_total win)) else 0", OF assms(1)])
  show "distinct (map fst (foldl (fillRate_step w) [] (all_events fills' cancels' rejects')))"
    unfolding fillRate_step_group by (rule distinct_group_fold) simp
  show "distinct (map fst (foldl (fillRate_step w) [] (all_events fills cancels rejects)))"
    unfolding fillRate_step_group by (rule distinct_group_fold) simp
  show "map_option (\<lambda>win. if rw_total win > 0 then fdiv (real (rw_fills win)) (real (rw_total win)) else 0)
          (map_of (foldl (fillRate_step w) [] (all_events fills' cancels' rejects')) k)
      = map_option (\<lambda>win. if rw_total win > 0 then fdiv (real (rw_fills win)) (real (rw_total win)) else 0)
          (map_of (foldl (fillRate_step w) [] (all_events fills cancels rejects)) k)" for k
    by (simp only: rate_windows_perm[OF all_events_perm[OF assms(2,3,4)]])
qed

lemma fillRate_timestamps:
  assumes "w \<noteq> 0"
  shows "one_point_per_window w
          (map fill_timestamp fills @ map cancel_timestamp cancels @ map reject_timestamp rejects)
          (calculateFillRateTimeSeries fills cancels rejects w)"
proof -
  let ?es = "all_events fills cancels rejects"
  have d: "distinct (map fst (foldl (fillRate_step w) [] ?es))"
    unfolding fillRate_step_group by (rule distinct_group_fold) simp
  have k: "fst ` set (foldl (fillRate_step w) [] ?es) = (\<lambda>e. windowKey w (fst e)) ` set ?es"
    unfolding fillRate_step_group by (rule keys_group_fold)
  have e: "fst ` set ?es = fill_timestamp ` set fills \<union> cancel_timestamp ` set cancels
              \<union> reject_timestamp ` set rejects"
    by (simp add: all_events_def image_Un image_image Un_assoc)
  have "(\<lambda>e. windowStart w (windowKey w (fst e))) ` set ?es
      = (\<lambda>t. windowStart w (windowKey w t)) ` fst ` set ?es"
    by (simp only: image_image)
  with e have i: "windowStart w ` (\<lambda>e. windowKey w (fst e)) ` set ?es
      = (\<lambda>t. windowStart w (windowKey w t))
           ` (fill_timestamp ` set fills \<union> cancel_timestamp ` set cancels
              \<union> reject_timestamp ` set rejects)"
    by (simp only: image_image)
  show ?thesis
    unfolding fillRate_unfold one_point_per_window_def
    using series_timestamps[OF assms d, where val = "\<lambda>win. if rw_total win > 0
          then fdiv (real (rw_fills win)) (real (rw_total win)) else 0"]
    by (simp only: k i set_map set_append Un_assoc)
qed

lemma latency_step_group:
  "latency_step w = group_step (\<lambda>m. windowKey w (lm_timestamp m)) []
     (\<lambda>l m. l @ [lm_latency_ms m])"
  by (intro ext) (simp add: latency_step_def group_step_def Let_def)

lemma latency_same_order:
  assumes "w \<noteq> 0" and "same_order_within_windows w lm_timestamp metrics' metrics"
  shows "calculateLatencyTimeSeries metrics' w = calculateLatencyTimeSeries metrics w"
  unfolding calculateLatencyTimeSeries_def Let_def
proof (rule series_unique[where val = "\<lambda>latencies. fdiv (fsum latencies)
          (real (length latencies))", OF assms(1)])
  show "distinct (map fst (foldl (latency_step w) [] metrics'))"
    unfolding latency_step_group by (rule distinct_group_fold) simp
  show "distinct (map fst (foldl (latency_step w) [] metrics))"
    unfolding latency_step_group by (rule distinct_group_fold) simp
  show "map_option (\<lambda>latencies. fdiv (fsum latencies) (real (length latencies)))
          (map_of (foldl (latency_step w) [] metrics') k)
      = map_option (\<lambda>latencies. fdiv (fsum latencies) (real (length latencies)))
          (map_of (foldl (latency_step w) [] metrics) k)" for k
    unfolding latency_step_group
    by (simp only: group_fold_same_order[of "\<lambda>m. windowKey w (lm_timestamp m)",
          OF same_order_all[OF assms(2)]])
qed

lemma latency_timestamps:
  assumes "w \<noteq> 0"
  shows "one_point_per_window w (map lm_timestamp metrics) (calculateLatencyTimeSeries metrics w)"
proof -
  have d: "distinct (map fst (foldl (latency_step w) [] metrics))"
    unfolding latency_step_group by (rule distinct_group_fold) simp
  have k: "fst ` set (foldl (latency_step w) [] metrics)
      = (\<lambda>m. windowKey w (lm_timestamp m)) ` set metrics"
    unfolding latency_step_group by (rule keys_group_fold)
  show ?thesis
    unfolding calculateLatencyTimeSeries_def Let_def one_point_per_window_def
    using series_timestamps[OF assms d, where val = "\<lambda>latencies.
        fdiv (fsum latencies) (real (length latencies))"]
    by (simp only: k image_image set_map)
qed

lemma pnl_step_group:
  "pnl_step w = group_step (\<lambda>f. windowKey w (fill_timestamp f)) 0 (\<lambda>v f. fadd v (fill_pnl f))"
  by (intro ext) (simp add: pnl_step_def group_step_def Let_def)

lemma pnl_same_order:
  assumes "same_order_within_windows w fill_timestamp fills' fills"
  shows "calculatePnLTimeSeries fills' w = calculatePnLTimeSeries fills w"
proof -
  let ?m' = "foldl (pnl_step w) [] fills'" and ?m = "foldl (pnl_step w) [] fills"
  have d': "distinct (map fst ?m')" and d: "distinct (map fst ?m)"
    unfolding pnl_step_group by (rule distinct_group_fold, simp)+
  have "map_of ?m' k = map_of ?m k" for k
    unfolding pnl_step_group
    by (simp only: group_fold_same_order[of "\<lambda>f. windowKey w (fill_timestamp f)",
          OF same_order_all[OF assms]])
  with d' d have "sort_key fst ?m' = sort_key fst ?m" by (rule sorted_windows_unique)
  then show ?thesis by (simp only: calculatePnLTimeSeries_def)
qed

lemma cumulate_timestamps:
  "map point_timestamp (cumulate w c xs) = map (windowStart w) (map fst xs)"
  by (induction xs arbitrary: c) auto

lemma windowStart_mono: "0 < w \<Longrightarrow> mono (windowStart w)"
  by (rule monoI) (simp add: windowStart_def)

lemma pnl_timestamps:
  assumes "0 < w"
  shows "one_point_per_window w (map fill_timestamp fills) (calculatePnLTimeSeries fills w)"
proof -
  let ?m = "foldl (pnl_step w) [] fills"
  have w: "w \<noteq> 0" using assms by simp
  have d: "distinct (map fst ?m)"
    unfolding pnl_step_group by (rule distinct_group_fold) simp
  have k: "fst ` set ?m = (\<lambda>f. windowKey w (fill_timestamp f)) ` set fills"
    unfolding pnl_step_group by (rule keys_group_fold)
  have ts: "map point_timestamp (calculatePnLTimeSeries fills w)
      = map (windowStart w) (map fst (sort_key fst ?m))"
    by (simp only: calculatePnLTimeSeries_def cumulate_timestamps)
  have "sorted (map fst (sort_key fst ?m))" by (rule sorted_sort_key)
  then have 1: "sorted (map (windowStart w) (map fst (sort_key fst ?m)))"
    using windowStart_mono[OF assms] by (simp only: sorted_map monotoneD sorted_wrt_map)
      (auto simp: sorted_wrt_iff_nth_less dest: monoD)
  have "distinct (map fst (sort_key fst ?m))"
    using d by (simp only: distinct_map distinct_sort set_sort)
  then have 2: "distinct (map (windowStart w) (map fst (sort_key fst ?m)))"
    by (rule distinct_map_inj[OF windowStart_inj[OF w]])
  have 3: "set (map (windowStart w) (map fst (sort_key fst ?m)))
      = (\<lambda>t. windowStart w (windowKey w t)) ` set (map fill_timestamp fills)"
    by (simp only: set_map set_sort k image_image)
  show ?thesis unfolding one_point_per_window_def ts using 1 2 3 by blast
qed

lemma ex_sum_forward:
  "fadd (fadd (fadd 0 (b64 (1 / 10))) (b64 (2 / 10))) (b64 (3 / 10)) = 5404319552844596 / 2 ^ 53"
proof -
  have a: "b64 (3602879701896397 / 2 ^ 55) = 3602879701896397 / 2 ^ 55"
    using b64_dyadic[of 3602879701896397 "- 55"] by (simp add: power_int_minus inverse_eq_divide)
  have b: "b64 (10808639105689191 / 2 ^ 55) = 5404319552844596 / 2 ^ 54"
    using b64_at[of "- 2" "10808639105689191 / 2 ^ 55"]
    by (simp add: power_int_minus round_even_def)
  have c: "b64 (10808639105689191 / 2 ^ 54) = 5404319552844596 / 2 ^ 53"
    using b64_at[of "- 1" "10808639105689191 / 2 ^ 54"]
    by (simp add: power_int_minus round_even_def)
  have 1: "fadd 0 (b64 (1 / 10)) = 3602879701896397 / 2 ^ 55"
    unfolding fadd_def b64_tenth using a by simp
  have 2: "fadd (3602879701896397 / 2 ^ 55) (b64 (2 / 10)) = 5404319552844596 / 2 ^ 54"
    unfolding fadd_def b64_fifth using b by simp
  have 3: "fadd (5404319552844596 / 2 ^ 54) (b64 (3 / 10)) = 5404319552844596 / 2 ^ 53"
    unfolding fadd_def b64_three_tenths using c by simp
  show ?thesis by (simp only: 1 2 3)
qed

lemma ex_sum_backward:
  "fadd (fadd (fadd 0 (b64 (3 / 10))) (b64 (2 / 10))) (b64 (1 / 10)) = 5404319552844595 / 2 ^ 53"
proof -
  have a: "b64 (5404319552844595 / 2 ^ 54) = 5404319552844595 / 2 ^ 54"
    using b64_dyadic[of 5404319552844595 "- 54"] by (simp add: power_int_minus inverse_eq_divide)
  have b: "b64 (1 / 2) = 1 / 2" by (rule b64_half)
  have c: "b64 (21617278211378381 / 2 ^ 55) = 5404319552844595 / 2 ^ 53"
    using b64_at[of "- 1" "21617278211378381 / 2 ^ 55"]
    by (simp add: power_int_minus round_even_def)
  have 1: "fadd 0 (b64 (3 / 10)) = 5404319552844595 / 2 ^ 54"
    unfolding fadd_def b64_three_tenths using a by simp
  have 2: "fadd (5404319552844595 / 2 ^ 54) (b64 (2 / 10)) = 1 / 2"
    unfolding fadd_def b64_fifth using b by simp
  have 3: "fadd (1 / 2) (b64 (1 / 10)) = 5404319552844595 / 2 ^ 53"
    unfolding fadd_def b64_tenth using c by simp
  show ?thesis by (simp only: 1 2 3)
qed

lemma volume_one_window:
  assumes "windowKey 60 t1 = 0" and "windowKey 60 t2 = 0" and "windowKey 60 t3 = 0"
  shows "calculateVolumeTimeSeries
           [ex_fill i1 t1 Buy q1, ex_fill i2 t2 Buy q2, ex_fill i3 t3 Buy q3] 60
         = [ex_point 0 (fadd (fadd (fadd 0 q1) q2) q3)]"
  using assms
  by (simp add: calculateVolumeTimeSeries_def volume_step_def map_has_def map_get_def
      windowStart_def ex_fill_def ex_point_def Let_def)

text \<open>
  C8, as stated, fails: the value of a window of the volume series is the sum of the
  quantities of its fills, added in binary64 arithmetic in the order of the input array,
  and that sum depends on the order. With three fills of one window of quantities 0.1, 0.2
  and 0.3 (the doubles so written) the series holds \<^verbatim>\<open>0.6000000000000001\<close>, and with the same
  fills in the reverse order \<^verbatim>\<open>0.6\<close>.
\<close>

theorem C8_time_series_order_counterexample:
  "mset [ex_fill ''c'' 3000 Buy (b64 (3 / 10)), ex_fill ''b'' 2000 Buy (b64 (2 / 10)),
         ex_fill ''a'' 1000 Buy (b64 (1 / 10))]
     = mset [ex_fill ''a'' 1000 Buy (b64 (1 / 10)), ex_fill ''b'' 2000 Buy (b64 (2 / 10)),
         ex_fill ''c'' 3000 Buy (b64 (3 / 10))]
   \<and> calculateVolumeTimeSeries
        [ex_fill ''a'' 1000 Buy (b64 (1 / 10)), ex_fill ''b'' 2000 Buy (b64 (2 / 10)),
         ex_fill ''c'' 3000 Buy (b64 (3 / 10))] 60
     = [ex_point 0 (5404319552844596 / 2 ^ 53)]
   \<and> calculateVolumeTimeSeries
        [ex_fill ''c'' 3000 Buy (b64 (3 / 10)), ex_fill ''b'' 2000 Buy (b64 (2 / 10)),
         ex_fill ''a'' 1000 Buy (b64 (1 / 10))] 60
     = [ex_point 0 (5404319552844595 / 2 ^ 53)]
   \<and> calculateVolumeTimeSeries
        [ex_fill ''c'' 3000 Buy (b64 (3 / 10)), ex_fill ''b'' 2000 Buy (b64 (2 / 10)),
         ex_fill ''a'' 1000 Buy (b64 (1 / 10))] 60
     \<noteq> calculateVolumeTimeSeries
        [ex_fill ''a'' 1000 Buy (b64 (1 / 10)), ex_fill ''b'' 2000 Buy (b64 (2 / 10)),
         ex_fill ''c'' 3000 Buy (b64 (3 / 10))] 60"
proof -
  have k: "windowKey 60 1000 = 0" "windowKey 60 2000 = 0" "windowKey 60 3000 = 0"
    by (simp_all add: windowKey_def)
  have m: "mset [ex_fill ''c'' 3000 Buy (b64 (3 / 10)), ex_fill ''b'' 2000 Buy (b64 (2 / 10)),
         ex_fill ''a'' 1000 Buy (b64 (1 / 10))]
     = mset [ex_fill ''a'' 1000 Buy (b64 (1 / 10)), ex_fill ''b'' 2000 Buy (b64 (2 / 10)),
         ex_fill ''c'' 3000 Buy (b64 (3 / 10))]"
    by (simp add: add_mset_commute)
  have f: "calculateVolumeTimeSeries
        [ex_fill ''a'' 1000 Buy (b64 (1 / 10)), ex_fill ''b'' 2000 Buy (b64 (2 / 10)),
         ex_fill ''c'' 3000 Buy (b64 (3 / 10))] 60
     = [ex_point 0 (5404319552844596 / 2 ^ 53)]"
    by (simp only: volume_one_window[OF k(1) k(2) k(3)] ex_sum_forward)
  have b: "calculateVolumeTimeSeries
        [ex_fill ''c'' 3000 Buy (b64 (3 / 10)), ex_fill ''b'' 2000 Buy (b64 (2 / 10)),
         ex_fill ''a'' 1000 Buy (b64 (1 / 10))] 60
     = [ex_point 0 (5404319552844595 / 2 ^ 53)]"
    by (simp only: volume_one_window[OF k(3) k(2) k(1)] ex_sum_backward)
  have n: "[ex_point 0 (5404319552844595 / 2 ^ 53)] \<noteq> [ex_point 0 (5404319552844596 / 2 ^ 53)]"
    by (simp add: ex_point_def)
  from m f b n show ?thesis by (simp only: simp_thms)
qed

text \<open>
  C8, amended. For every input list, every permutation of it and the same positive window
  width: the fill-rate series of the two are identical; the volume, latency and cumulative
  P&L series of the two have the same timestamps, and are identical when the permutation
  keeps the events of each window in their relative order (the value of a window is a sum
  in binary64 arithmetic, taken in the order of the input). Each output is a sequence
  ascending by timestamp with exactly one point per non-empty window and no point for an
  empty one.
\<close>

theorem C8_time_series_permuted:
  assumes "0 < w"
    and "mset fills' = mset fills" and "mset cancels' = mset cancels"
    and "mset rejects' = mset rejects" and "mset metrics' = mset metrics"
  shows "calculateFillRateTimeSeries fills' cancels' rejects' w
       = calculateFillRateTimeSeries fills cancels rejects w
     \<and> map point_timestamp (calculateVolumeTimeSeries fills' w)
       = map point_timestamp (calculateVolumeTimeSeries fills w)
     \<and> map point_timestamp (calculateLatencyTimeSeries metrics' w)
       = map point_timestamp (calculateLatencyTimeSeries metrics w)
     \<and> map point_timestamp (calculatePnLTimeSeries fills' w)
       = map point_timestamp (calculatePnLTimeSeries fills w)
     \<and> (same_order_within_windows w fill_timestamp fills' fills \<longrightarrow>
          calculateVolumeTimeSeries fills' w = calculateVolumeTimeSeries fills w
          \<and> calculatePnLTimeSeries fills' w = calculatePnLTimeSeries fills w)
     \<and> (same_order_within_windows w lm_timestamp metrics' metrics \<longrightarrow>
          calculateLatencyTimeSeries metrics' w = calculateLatencyTimeSeries metrics w)
     \<and> one_point_per_window w (map fill_timestamp fills) (calculateVolumeTimeSeries fills w)
     \<and> one_point_per_window w
          (map fill_timestamp fills @ map cancel_timestamp cancels @ map reject_timestamp rejects)
          (calculateFillRateTimeSeries fills cancels rejects w)
     \<and> one_point_per_window w (map lm_timestamp metrics) (calculateLatencyTimeSeries metrics w)
     \<and> one_point_per_window w (map fill_timestamp fills) (calculatePnLTimeSeries fills w)"
proof -
  have w: "w \<noteq> 0" using assms(1) by simp
  have sf: "set (map fill_timestamp fills') = set (map fill_timestamp fills)"
    using mset_eq_setD[OF assms(2)] by simp
  have sm: "set (map lm_timestamp metrics') = set (map lm_timestamp metrics)"
    using mset_eq_setD[OF assms(5)] by simp
  have 1: "calculateFillRateTimeSeries fills' cancels' rejects' w
       = calculateFillRateTimeSeries fills cancels rejects w"
    by (rule fillRate_perm[OF w assms(2,3,4)])
  have 2: "map point_timestamp (calculateVolumeTimeSeries fills' w)
       = map point_timestamp (calculateVolumeTimeSeries fills w)"
    by (rule one_point_per_window_unique[OF volume_timestamps[OF w] volume_timestamps[OF w] sf])
  have 3: "map point_timestamp (calculateLatencyTimeSeries metrics' w)
       = map point_timestamp (calculateLatencyTimeSeries metrics w)"
    by (rule one_point_per_window_unique[OF latency_timestamps[OF w] latency_timestamps[OF w] sm])
  have 4: "map point_timestamp (calculatePnLTimeSeries fills' w)
       = map point_timestamp (calculatePnLTimeSeries fills w)"
    by (rule one_point_per_window_unique[OF pnl_timestamps[OF assms(1)]
          pnl_timestamps[OF assms(1)] sf])
  have 5: "calculateVolumeTimeSeries fills' w = calculateVolumeTimeSeries fills w
          \<and> calculatePnLTimeSeries fills' w = calculatePnLTimeSeries fills w"
    if "same_order_within_windows w fill_timestamp fills' fills"
    using volume_same_order[OF w that] pnl_same_order[OF that] by (simp only: simp_thms)
  have 6: "calculateLatencyTimeSeries metrics' w = calculateLatencyTimeSeries metrics w"
    if "same_order_within_windows w lm_timestamp metrics' metrics"
    using that by (rule latency_same_order[OF w])
  show ?thesis
    using 1 2 3 4 5 6 volume_timestamps[OF w, of fills]
      fillRate_timestamps[OF w, of fills cancels rejects]
      latency_timestamps[OF w, of metrics] pnl_timestamps[OF assms(1), of fills]
    by blast
qed

theorem C8_time_series_permuted_witness:
  "calculateVolumeTimeSeries
      [ex_fill ''b'' 3600001 Buy 40, ex_fill ''a'' 1000 Buy 30, ex_fill ''c'' 2000 Sell 10] 60
    = calculateVolumeTimeSeries
      [ex_fill ''a'' 1000 Buy 30, ex_fill ''b'' 3600001 Buy 40, ex_fill ''c'' 2000 Sell 10] 60
   \<and> calculateVolumeTimeSeries
      [ex_fill ''a'' 1000 Buy 30, ex_fill ''b'' 3600001 Buy 40, ex_fill ''c'' 2000 Sell 10] 60
    = [ex_point 0 40, ex_point 3600000 40]
   \<and> calculateFillRateTimeSeries
      [ex_fill ''b'' 3600001 Buy 40, ex_fill ''a'' 1000 Buy 30, ex_fill ''c'' 2000 Sell 10]
      [ex_cancel ''x'' 3000] [] 60
    = calculateFillRateTimeSeries
      [ex_fill ''a'' 1000 Buy 30, ex_fill ''b'' 3600001 Buy 40, ex_fill ''c'' 2000 Sell 10]
      [ex_cancel ''x'' 3000] [] 60
   \<and> calculateFillRateTimeSeries
      [ex_fill ''a'' 1000 Buy 30, ex_fill ''b'' 3600001 Buy 40, ex_fill ''c'' 2000 Sell 10]
      [ex_cancel ''x'' 3000] [] 60
    = [ex_point 0 (6004799503160661 / 2 ^ 53), ex_point 3600000 1]"
proof -
  have m: "mset [ex_fill ''b'' 3600001 Buy 40, ex_fill ''a'' 1000 Buy 30, ex_fill ''c'' 2000 Sell 10]
      = mset [ex_fill ''a'' 1000 Buy 30, ex_fill ''b'' 3600001 Buy 40, ex_fill ''c'' 2000 Sell 10]"
    by (simp add: add_mset_commute)
  have p: "(0::int) < 60" by simp
  have r: "mset ([]::'a list) = mset []" by simp
  have c: "mset [ex_cancel ''x'' 3000] = mset [ex_cancel ''x'' 3000]" by simp
  have o: "same_order_within_windows 60 fill_timestamp
      [ex_fill ''b'' 3600001 Buy 40, ex_fill ''a'' 1000 Buy 30, ex_fill ''c'' 2000 Sell 10]
      [ex_fill ''a'' 1000 Buy 30, ex_fill ''b'' 3600001 Buy 40, ex_fill ''c'' 2000 Sell 10]"
    by (simp add: same_order_within_windows_def windowKey_def ex_fill_def)
  note t = C8_time_series_permuted[OF p m c r r]
  have v: "calculateVolumeTimeSeries
      [ex_fill ''a'' 1000 Buy 30, ex_fill ''b'' 3600001 Buy 40, ex_fill ''c'' 2000 Sell 10] 60
    = [ex_point 0 40, ex_point 3600000 40]"
    by (simp add: calculateVolumeTimeSeries_def volume_step_def map_has_def map_get_def
        windowKey_def windowStart_def ex_fill_def ex_point_def Let_def fadd_def b64_exact)
  have f: "calculateFillRateTimeSeries
      [ex_fill ''a'' 1000 Buy 30, ex_fill ''b'' 3600001 Buy 40, ex_fill ''c'' 2000 Sell 10]
      [ex_cancel ''x'' 3000] [] 60
    = [ex_point 0 (6004799503160661 / 2 ^ 53), ex_point 3600000 1]"
    using b64_two_thirds
    by (simp add: calculateFillRateTimeSeries_def fillRate_step_def map_has_def map_get_def
        windowKey_def windowStart_def ex_fill_def ex_cancel_def ex_point_def Let_def fdiv_def
        b64_exact)
  from t o v f show ?thesis by simp
qed

subsection \<open>Latency spikes\<close>

lemma slice_window:
  "windowSize \<le> i \<Longrightarrow> i \<le> length xs \<Longrightarrow>
   slice (int i - int windowSize) (int i) xs = take windowSize (drop (i - windowSize) xs)"
proof -
  assume a: "windowSize \<le> i" and b: "i \<le> length xs"
  have n: "nat (int i - int windowSize) = i - windowSize" using a by linarith
  have l: "\<not> int i - int windowSize < 0" using a by linarith
  have m: "min (i - windowSize) (length xs) = i - windowSize" using b by linarith
  have k: "min i (length xs) = i" using b by linarith
  have d: "i - (i - windowSize) = windowSize" using a by linarith
  have r1: "rel_index (int i - int windowSize) (length xs) = i - windowSize"
    unfolding rel_index_def using l n m by simp
  have r2: "rel_index (int i) (length xs) = i"
    unfolding rel_index_def using k by simp
  show ?thesis unfolding slice_def Let_def r1 r2 d ..
qed

lemma window_mean_None: "window_mean wl = None \<longleftrightarrow> wl = []"
  by (simp add: window_mean_def js_div_def)

lemma window_stdDev_None: "window_stdDev wl = None \<longleftrightarrow> wl = []"
  by (cases "wl = []") (auto simp add: window_stdDev_def window_mean_def js_div_def)

lemma zScore_of_window:
  "zScore_of (window_mean wl) (window_stdDev wl) cur =
     (case (window_mean wl, window_stdDev wl) of
        (Some mean, Some stdDev) \<Rightarrow>
          Some (fdiv (fsub cur mean) (if stdDev = 0 then 1 else stdDev))
      | _ \<Rightarrow> None)"
proof (cases "wl = []")
  case True
  then have "window_mean wl = None" by (simp only: window_mean_None)
  then show ?thesis by (simp add: zScore_of_def)
next
  case False
  then obtain m where m: "window_mean wl = Some m"
    using window_mean_None[of wl] by (cases "window_mean wl") simp_all
  from False obtain s where s: "window_stdDev wl = Some s"
    using window_stdDev_None[of wl] by (cases "window_stdDev wl") simp_all
  show ?thesis by (simp add: m s zScore_of_def or_one_def)
qed

lemma spike_step_unstamped:
  assumes "windowSize \<le> i" and "i \<le> length sortedMetrics"
  shows "map unstamped (fst (spike_step h th windowSize sortedMetrics (acc, w) i)) =
     map unstamped acc @
       (if spike_flag th sortedMetrics windowSize i
        then [spike_record h sortedMetrics windowSize i] else [])"
  using assms
  by (simp add: spike_step_def slice_window spike_flag_def spike_record_def zScore_at_def
      window_before_def zScore_of_window unstamped_def fresh_id_def Date_now_def
      Math_random_def Let_def split_def)

lemma spike_fold_unstamped:
  assumes "\<forall>i \<in> set is. windowSize \<le> i \<and> i \<le> length sortedMetrics"
  shows "map unstamped (fst (foldl (spike_step h th windowSize sortedMetrics) (acc, w) is)) =
     map unstamped acc @
       map (spike_record h sortedMetrics windowSize)
         (filter (spike_flag th sortedMetrics windowSize) is)"
  using assms
proof (induction "is" arbitrary: acc w)
  case Nil
  show ?case by simp
next
  case (Cons i "is")
  obtain acc' w' where st: "spike_step h th windowSize sortedMetrics (acc, w) i = (acc', w')"
    by (cases "spike_step h th windowSize sortedMetrics (acc, w) i")
  have b: "windowSize \<le> i" "i \<le> length sortedMetrics" using Cons.prems by simp_all
  have "map unstamped acc' = map unstamped acc @
       (if spike_flag th sortedMetrics windowSize i
        then [spike_record h sortedMetrics windowSize i] else [])"
    using spike_step_unstamped[OF b, of h th acc w] st by simp
  moreover have "\<forall>i \<in> set is. windowSize \<le> i \<and> i \<le> length sortedMetrics"
    using Cons.prems by simp
  ultimately show ?case using Cons.IH[of acc' w'] st by simp
qed

lemma spikes_unstamped:
  "map unstamped (fst (detectLatencySpikes h th w metrics windowSize)) =
     (if length metrics < windowSize then []
      else map (spike_record h (sort_key lm_timestamp metrics) windowSize)
             (filter (spike_flag th (sort_key lm_timestamp metrics) windowSize)
                [windowSize ..< length metrics]))"
proof (cases "length metrics < windowSize")
  case True
  then show ?thesis by (simp add: detectLatencySpikes_def)
next
  case False
  have "\<forall>i \<in> set [windowSize ..< length (sort_key lm_timestamp metrics)].
      windowSize \<le> i \<and> i \<le> length (sort_key lm_timestamp metrics)"
    by simp
  from spike_fold_unstamped[OF this, of h th "[]" w] False show ?thesis
    by (simp add: detectLatencySpikes_def Let_def)
qed

lemma sqrt_quarter: "sqrt (1 / 4) = 1 / 2"
  by (simp add: real_sqrt_divide)

lemma stats_01: "window_mean [0, 1] = Some (1 / 2)" "window_stdDev [0, 1] = Some (1 / 2)"
proof -
  show m: "window_mean [0, 1] = Some (1 / 2)"
    by (simp add: window_mean_def js_div_def fsum_def fadd_def fdiv_def b64_0 b64_exact b64_half)
  have d: "fpow2 (fsub 0 (1 / 2)) = 1 / 4" "fpow2 (fsub 1 (1 / 2)) = 1 / 4"
    by (simp_all add: fpow2_def fsub_def b64_exact b64_half)
  have v: "fdiv (fadd (fadd 0 (1 / 4)) (1 / 4)) 2 = 1 / 4"
    by (simp add: fadd_def fdiv_def b64_exact b64_half)
  have s: "fsqrt (1 / 4) = 1 / 2"
    by (simp only: fsqrt_def sqrt_quarter b64_half)
  show "window_stdDev [0, 1] = Some (1 / 2)"
    by (simp add: window_stdDev_def m js_div_def d v s)
qed

lemma stats_single:
  "window_mean [10] = Some 10" "window_stdDev [10] = Some 0"
  "window_mean [200] = Some 200" "window_stdDev [200] = Some 0"
proof -
  show m: "window_mean [10] = Some 10" "window_mean [200] = Some 200"
    by (simp_all add: window_mean_def js_div_def fsum_def fadd_def fdiv_def b64_exact)
  show "window_stdDev [10] = Some 0" "window_stdDev [200] = Some 0"
    by (simp_all add: window_stdDev_def m js_div_def fadd_def fsub_def fpow2_def fdiv_def
        fsqrt_def b64_0)
qed

lemma fadd_multiple:
  assumes "int j + 1 < 2 ^ 53" and "- 1074 \<le> k"
  shows "fadd (real j * 2 powi k) (2 powi k) = real (Suc j) * 2 powi k"
proof -
  have "real j * 2 powi k + 2 powi k = of_int (int j + 1) * 2 powi k"
    by (simp add: algebra_simps)
  then have "fadd (real j * 2 powi k) (2 powi k) = b64 (of_int (int j + 1) * 2 powi k)"
    by (simp only: fadd_def)
  also have "\<dots> = of_int (int j + 1) * 2 powi k"
    using assms by (intro b64_dyadic) simp_all
  finally show ?thesis by (simp add: algebra_simps)
qed

lemma foldl_fadd_replicate:
  assumes "\<And>a. f a d = fadd a (2 powi k)" and "- 1074 \<le> k" and "int (j + n) < 2 ^ 53"
  shows "foldl f (real j * 2 powi k) (replicate n d) = real (j + n) * 2 powi k"
  using assms(3)
proof (induction n arbitrary: j)
  case 0
  show ?case by simp
next
  case (Suc n)
  have "int j + 1 < 2 ^ 53" using Suc.prems by simp
  then have "f (real j * 2 powi k) d = real (Suc j) * 2 powi k"
    using assms(2) by (simp only: assms(1) fadd_multiple)
  moreover have "int (Suc j + n) < 2 ^ 53" using Suc.prems by simp
  ultimately show ?case using Suc.IH[of "Suc j"] by simp
qed

lemma tenths_sum: "fsum (replicate 20 (b64 (1 / 10))) = 4503599627370497 / 2 ^ 51"
proof -
  have a1: "b64 (3602879701896397 / 2 ^ 55) = 3602879701896397 / 2 ^ 55"
    using b64_at[of "- 4" "3602879701896397 / 2 ^ 55"]
    by (simp add: power_int_minus round_even_def)
  have s1: "fadd (0) (b64 (1 / 10)) = 3602879701896397 / 2 ^ 55"
    unfolding fadd_def b64_tenth using a1 by simp
  have a2: "b64 (7205759403792794 / 2 ^ 55) = 3602879701896397 / 2 ^ 54"
    using b64_at[of "- 3" "7205759403792794 / 2 ^ 55"]
    by (simp add: power_int_minus round_even_def)
  have s2: "fadd (3602879701896397 / 2 ^ 55) (b64 (1 / 10)) = 3602879701896397 / 2 ^ 54"
    unfolding fadd_def b64_tenth using a2 by simp
  have a3: "b64 (10808639105689191 / 2 ^ 55) = 1351079888211149 / 2 ^ 52"
    using b64_at[of "- 2" "10808639105689191 / 2 ^ 55"]
    by (simp add: power_int_minus round_even_def)
  have s3: "fadd (3602879701896397 / 2 ^ 54) (b64 (1 / 10)) = 1351079888211149 / 2 ^ 52"
    unfolding fadd_def b64_tenth using a3 by simp
  have a4: "b64 (14411518807585589 / 2 ^ 55) = 3602879701896397 / 2 ^ 53"
    using b64_at[of "- 2" "14411518807585589 / 2 ^ 55"]
    by (simp add: power_int_minus round_even_def)
  have s4: "fadd (1351079888211149 / 2 ^ 52) (b64 (1 / 10)) = 3602879701896397 / 2 ^ 53"
    unfolding fadd_def b64_tenth using a4 by simp
  have a5: "b64 (18014398509481985 / 2 ^ 55) = 1 / 2 ^ 1"
    using b64_at[of "- 1" "18014398509481985 / 2 ^ 55"]
    by (simp add: power_int_minus round_even_def)
  have s5: "fadd (3602879701896397 / 2 ^ 53) (b64 (1 / 10)) = 1 / 2 ^ 1"
    unfolding fadd_def b64_tenth using a5 by simp
  have a6: "b64 (21617278211378381 / 2 ^ 55) = 5404319552844595 / 2 ^ 53"
    using b64_at[of "- 1" "21617278211378381 / 2 ^ 55"]
    by (simp add: power_int_minus round_even_def)
  have s6: "fadd (1 / 2 ^ 1) (b64 (1 / 10)) = 5404319552844595 / 2 ^ 53"
    unfolding fadd_def b64_tenth using a6 by simp
  have a7: "b64 (25220157913274777 / 2 ^ 55) = 3152519739159347 / 2 ^ 52"
    using b64_at[of "- 1" "25220157913274777 / 2 ^ 55"]
    by (simp add: power_int_minus round_even_def)
  have s7: "fadd (5404319552844595 / 2 ^ 53) (b64 (1 / 10)) = 3152519739159347 / 2 ^ 52"
    unfolding fadd_def b64_tenth using a7 by simp
  have a8: "b64 (28823037615171173 / 2 ^ 55) = 7205759403792793 / 2 ^ 53"
    using b64_at[of "- 1" "28823037615171173 / 2 ^ 55"]
    by (simp add: power_int_minus round_even_def)
  have s8: "fadd (3152519739159347 / 2 ^ 52) (b64 (1 / 10)) = 7205759403792793 / 2 ^ 53"
    unfolding fadd_def b64_tenth using a8 by simp
  have a9: "b64 (32425917317067569 / 2 ^ 55) = 2026619832316723 / 2 ^ 51"
    using b64_at[of "- 1" "32425917317067569 / 2 ^ 55"]
    by (simp add: power_int_minus round_even_def)
  have s9: "fadd (7205759403792793 / 2 ^ 53) (b64 (1 / 10)) = 2026619832316723 / 2 ^ 51"
    unfolding fadd_def b64_tenth using a9 by simp
  have a10: "b64 (36028797018963965 / 2 ^ 55) = 9007199254740991 / 2 ^ 53"
    using b64_at[of "- 1" "36028797018963965 / 2 ^ 55"]
    by (simp add: power_int_minus round_even_def)
  have s10: "fadd (2026619832316723 / 2 ^ 51) (b64 (1 / 10)) = 9007199254740991 / 2 ^ 53"
    unfolding fadd_def b64_tenth using a10 by simp
  have a11: "b64 (39631676720860361 / 2 ^ 55) = 4953959590107545 / 2 ^ 52"
    using b64_at[of "0" "39631676720860361 / 2 ^ 55"]
    by (simp add: power_int_minus round_even_def)
  have s11: "fadd (9007199254740991 / 2 ^ 53) (b64 (1 / 10)) = 4953959590107545 / 2 ^ 52"
    unfolding fadd_def b64_tenth using a11 by simp
  have a12: "b64 (43234556422756757 / 2 ^ 55) = 5404319552844595 / 2 ^ 52"
    using b64_at[of "0" "43234556422756757 / 2 ^ 55"]
    by (simp add: power_int_minus round_even_def)
  have s12: "fadd (4953959590107545 / 2 ^ 52) (b64 (1 / 10)) = 5404319552844595 / 2 ^ 52"
    unfolding fadd_def b64_tenth using a12 by simp
  have a13: "b64 (46837436124653157 / 2 ^ 55) = 5854679515581645 / 2 ^ 52"
    using b64_at[of "0" "46837436124653157 / 2 ^ 55"]
    by (simp add: power_int_minus round_even_def)
  have s13: "fadd (5404319552844595 / 2 ^ 52) (b64 (1 / 10)) = 5854679515581645 / 2 ^ 52"
    unfolding fadd_def b64_tenth using a13 by simp
  have a14: "b64 (50440315826549557 / 2 ^ 55) = 6305039478318695 / 2 ^ 52"
    using b64_at[of "0" "50440315826549557 / 2 ^ 55"]
    by (simp add: power_int_minus round_even_def)
  have s14: "fadd (5854679515581645 / 2 ^ 52) (b64 (1 / 10)) = 6305039478318695 / 2 ^ 52"
    unfolding fadd_def b64_tenth using a14 by simp
  have a15: "b64 (54043195528445957 / 2 ^ 55) = 6755399441055745 / 2 ^ 52"
    using b64_at[of "0" "54043195528445957 / 2 ^ 55"]
    by (simp add: power_int_minus round_even_def)
  have s15: "fadd (6305039478318695 / 2 ^ 52) (b64 (1 / 10)) = 6755399441055745 / 2 ^ 52"
    unfolding fadd_def b64_tenth using a15 by simp
  have a16: "b64 (57646075230342357 / 2 ^ 55) = 7205759403792795 / 2 ^ 52"
    using b64_at[of "0" "57646075230342357 / 2 ^ 55"]
    by (simp add: power_int_minus round_even_def)
  have s16: "fadd (6755399441055745 / 2 ^ 52) (b64 (1 / 10)) = 7205759403792795 / 2 ^ 52"
    unfolding fadd_def b64_tenth using a16 by simp
  have a17: "b64 (61248954932238757 / 2 ^ 55) = 7656119366529845 / 2 ^ 52"
    using b64_at[of "0" "61248954932238757 / 2 ^ 55"]
    by (simp add: power_int_minus round_even_def)
  have s17: "fadd (7205759403792795 / 2 ^ 52) (b64 (1 / 10)) = 7656119366529845 / 2 ^ 52"
    unfolding fadd_def b64_tenth using a17 by simp
  have a18: "b64 (64851834634135157 / 2 ^ 55) = 8106479329266895 / 2 ^ 52"
    using b64_at[of "0" "64851834634135157 / 2 ^ 55"]
    by (simp add: power_int_minus round_even_def)
  have s18: "fadd (7656119366529845 / 2 ^ 52) (b64 (1 / 10)) = 8106479329266895 / 2 ^ 52"
    unfolding fadd_def b64_tenth using a18 by simp
  have a19: "b64 (68454714336031557 / 2 ^ 55) = 8556839292003945 / 2 ^ 52"
    using b64_at[of "0" "68454714336031557 / 2 ^ 55"]
    by (simp add: power_int_minus round_even_def)
  have s19: "fadd (8106479329266895 / 2 ^ 52) (b64 (1 / 10)) = 8556839292003945 / 2 ^ 52"
    unfolding fadd_def b64_tenth using a19 by simp
  have a20: "b64 (72057594037927957 / 2 ^ 55) = 4503599627370497 / 2 ^ 51"
    using b64_at[of "1" "72057594037927957 / 2 ^ 55"]
    by (simp add: power_int_minus round_even_def)
  have s20: "fadd (8556839292003945 / 2 ^ 52) (b64 (1 / 10)) = 4503599627370497 / 2 ^ 51"
    unfolding fadd_def b64_tenth using a20 by simp
  have r: "replicate 20 (b64 (1 / 10)) =
      [b64 (1 / 10), b64 (1 / 10), b64 (1 / 10), b64 (1 / 10), b64 (1 / 10), b64 (1 / 10), b64 (1 / 10), b64 (1 / 10), b64 (1 / 10), b64 (1 / 10),
       b64 (1 / 10), b64 (1 / 10), b64 (1 / 10), b64 (1 / 10), b64 (1 / 10), b64 (1 / 10), b64 (1 / 10), b64 (1 / 10), b64 (1 / 10), b64 (1 / 10)]"
    by (simp add: numeral_eq_Suc)
  show ?thesis
    unfolding fsum_def r foldl_Cons foldl_Nil
    by (simp only: s1 s2 s3 s4 s5 s6 s7 s8 s9 s10 s11 s12 s13 s14 s15 s16 s17 s18 s19 s20)
qed

lemma tenths_mean:
  "window_mean (replicate 20 (b64 (1 / 10))) = Some (7205759403792795 / 2 ^ 56)"
proof -
  have "b64 (4503599627370497 / 2 ^ 51 / 20) = 7205759403792795 / 2 ^ 56"
    using b64_at[of "- 4" "4503599627370497 / 2 ^ 51 / 20"]
    by (simp add: power_int_minus round_even_def)
  then show ?thesis
    by (simp add: window_mean_def js_div_def tenths_sum fdiv_def)
qed

lemma sqrt_power_112: "sqrt (1 / 2 ^ 112) = 1 / 2 ^ 56"
proof -
  have "(1::real) / 2 ^ 112 = (1 / 2 ^ 56) ^ 2" by (simp add: power_divide)
  then have "sqrt (1 / 2 ^ 112) = \<bar>1 / 2 ^ 56 :: real\<bar>" by (simp only: real_sqrt_abs)
  then show ?thesis by simp
qed

lemma tenths_stdDev:
  "window_stdDev (replicate 20 (b64 (1 / 10))) = Some (1 / 2 ^ 56)"
proof -
  let ?mean = "7205759403792795 / 2 ^ 56 :: real"
  have p: "(2::real) powi (- 112) = 1 / 2 ^ 112" "(2::real) powi (- 56) = 1 / 2 ^ 56"
    by (simp_all add: power_int_minus inverse_eq_divide)
  have d: "b64 (- (1 / 2 ^ 56)) = - (1 / 2 ^ 56)"
    using b64_dyadic[of "- 1" "- 56"] by (simp add: p)
  have q: "b64 (1 / 2 ^ 112) = 1 / 2 ^ 112"
    using b64_dyadic[of 1 "- 112"] by (simp add: p)
  have h: "b64 (1 / 2 ^ 56) = 1 / 2 ^ 56"
    using b64_dyadic[of 1 "- 56"] by (simp add: p)
  have "fsub (b64 (1 / 10)) ?mean = - (1 / 2 ^ 56)"
    unfolding fsub_def b64_tenth using d by simp
  then have "fpow2 (fsub (b64 (1 / 10)) ?mean) = 2 powi (- 112)"
    unfolding fpow2_def using q by (simp add: p)
  then have f: "fadd a (fpow2 (fsub (b64 (1 / 10)) ?mean)) = fadd a (2 powi (- 112))" for a
    by (simp only:)
  have "foldl (\<lambda>sum val. fadd sum (fpow2 (fsub val ?mean))) (real 0 * 2 powi (- 112))
          (replicate 20 (b64 (1 / 10))) = real (0 + 20) * 2 powi (- 112)"
    by (rule foldl_fadd_replicate[where f = "\<lambda>sum val. fadd sum (fpow2 (fsub val ?mean))", OF f])
      simp_all
  then have s: "foldl (\<lambda>sum val. fadd sum (fpow2 (fsub val ?mean))) 0
          (replicate 20 (b64 (1 / 10))) = 20 * (1 / 2 ^ 112)"
    by (simp add: p)
  have v: "fdiv (20 * (1 / 2 ^ 112)) 20 = 1 / 2 ^ 112"
    unfolding fdiv_def using q by simp
  have r: "fsqrt (1 / 2 ^ 112) = 1 / 2 ^ 56"
    by (simp only: fsqrt_def sqrt_power_112 h)
  have l: "real (length (replicate 20 (b64 (1 / 10)))) = 20" by simp
  have j: "js_div x 20 = Some (fdiv x 20)" for x by (simp add: js_div_def)
  show ?thesis
    unfolding window_stdDev_def tenths_mean option.case l s j
    by (simp only: v option.map r)
qed

lemma tenths_zScore: "zScore_at ex_tenths 20 20 = Some 7205759403792793"
proof -
  have wb: "window_before ex_tenths 20 20 = replicate 20 (b64 (1 / 10))"
    by (simp add: window_before_def ex_tenths_def ex_latency_def comp_def map_replicate_const)
  have c: "lm_latency_ms (ex_tenths ! 20) = b64 (2 / 10)"
    by (simp add: ex_tenths_def ex_latency_def nth_append)
  have p: "(2::real) powi (- 56) = 1 / 2 ^ 56"
    by (simp add: power_int_minus inverse_eq_divide)
  have a: "b64 (7205759403792793 / 2 ^ 56) = 7205759403792793 / 2 ^ 56"
    using b64_dyadic[of 7205759403792793 "- 56"] by (simp add: p)
  have b: "b64 7205759403792793 = 7205759403792793"
    using b64_dyadic[of 7205759403792793 0] by simp
  have n: "fsub (b64 (2 / 10)) (7205759403792795 / 2 ^ 56) = 7205759403792793 / 2 ^ 56"
    unfolding fsub_def b64_fifth using a by simp
  have z: "fdiv (7205759403792793 / 2 ^ 56) (1 / 2 ^ 56) = 7205759403792793"
    unfolding fdiv_def using b by simp
  have nz: "(1::real) / 2 ^ 56 \<noteq> 0" by simp
  show ?thesis
    unfolding zScore_at_def wb c tenths_mean tenths_stdDev
    by (simp only: prod.case option.case n nz if_False z)
qed

text \<open>
  C6, as stated, fails: the divisor of the z-score is the standard deviation itself unless it
  is zero, not \<open>max (stddev, 1)\<close>. With a window of two samples of latency 0 and 1 (mean
  \<open>1/2\<close>, deviation \<open>1/2\<close>, both exact in binary64) and a third sample of \<open>5/2\<close>, the code
  computes \<open>z = 4\<close> and reports the sample; with \<open>max (stddev, 1)\<close> the score is 2 and, \<open>5/2\<close>
  being below the threshold of 150, nothing would be reported.
\<close>

theorem C6_latency_spikes_counterexample:
  "length (fst (detectLatencySpikes ex_host DEFAULT_THRESHOLDS (ex_world 0)
        [ex_latency ''a'' 1 0, ex_latency ''b'' 2 1, ex_latency ''c'' 3 (5 / 2)] 2)) = 1
   \<and> zScore_at
        (sort_key lm_timestamp
           [ex_latency ''a'' 1 0, ex_latency ''b'' 2 1, ex_latency ''c'' 3 (5 / 2)]) 2 2
      = Some 4
   \<and> zScore_as_specified
        (sort_key lm_timestamp
           [ex_latency ''a'' 1 0, ex_latency ''b'' 2 1, ex_latency ''c'' 3 (5 / 2)]) 2 2
      = Some 2
   \<and> \<not> lm_latency_ms (sort_key lm_timestamp
             [ex_latency ''a'' 1 0, ex_latency ''b'' 2 1, ex_latency ''c'' 3 (5 / 2)] ! 2)
          > latencySpike DEFAULT_THRESHOLDS"
proof -
  let ?ms = "[ex_latency ''a'' 1 0, ex_latency ''b'' 2 1, ex_latency ''c'' 3 (5 / 2)]"
  have s: "sort_key lm_timestamp ?ms = ?ms" by (simp add: ex_latency_def)
  have wb: "window_before ?ms 2 2 = [0, 1]" by (simp add: window_before_def ex_latency_def)
  have c: "lm_latency_ms (?ms ! 2) = 5 / 2" by (simp add: ex_latency_def)
  have z: "zScore_at ?ms 2 2 = Some 4"
    by (simp only: zScore_at_def wb c stats_01) (simp add: fsub_def fdiv_def b64_exact)
  have z': "zScore_as_specified ?ms 2 2 = Some 2"
    by (simp only: zScore_as_specified_def wb c stats_01) (simp add: fsub_def fdiv_def b64_exact)
  have f: "spike_flag DEFAULT_THRESHOLDS ?ms 2 2" by (simp only: spike_flag_def z) simp
  have u: "[2..<3] = [2::nat]" by (simp add: upt_rec)
  have len: "length ?ms = 3" by simp
  have "map unstamped (fst (detectLatencySpikes ex_host DEFAULT_THRESHOLDS (ex_world 0) ?ms 2))
      = [spike_record ex_host ?ms 2 2]"
    using spikes_unstamped[of ex_host DEFAULT_THRESHOLDS "ex_world 0" ?ms 2] f
    by (simp only: s u len) simp
  then have "length (map unstamped
      (fst (detectLatencySpikes ex_host DEFAULT_THRESHOLDS (ex_world 0) ?ms 2))) = 1"
    by simp
  then have "length (fst (detectLatencySpikes ex_host DEFAULT_THRESHOLDS (ex_world 0) ?ms 2)) = 1"
    by (simp only: length_map)
  moreover have "\<not> lm_latency_ms (?ms ! 2) > latencySpike DEFAULT_THRESHOLDS"
    by (simp only: c) (simp add: DEFAULT_THRESHOLDS_def)
  ultimately show ?thesis unfolding s using z z' by simp
qed

text \<open>
  C6, amended. \<open>detectLatencySpikes\<close> returns no anomalies when fewer than \<open>W\<close> samples are
  given. Otherwise, for each sample preceded by \<open>W\<close> samples in timestamp order, it computes
  \<open>z = (current - mean) / d\<close> in binary64 arithmetic over the \<open>W\<close> preceding samples, where \<open>d\<close>
  is their standard deviation, or 1 when that deviation is exactly zero, and emits an anomaly
  for that sample if and only if \<open>z > 3\<close> or the latency of the sample exceeds the
  \<open>latencySpike\<close> threshold, with the severity bucketed by \<open>z\<close> against 2, 3 and 4. With
  \<open>W = 0\<close> the window is empty and \<open>z\<close> is \<^verbatim>\<open>NaN\<close>: a sample is then reported if and only if its
  latency exceeds the threshold, with the severity critical. The anomalies come in the order
  of the samples.
\<close>

theorem C6_latency_spikes:
  "(length metrics < windowSize \<longrightarrow>
      fst (detectLatencySpikes h th w metrics windowSize) = [])
   \<and> (windowSize \<le> length metrics \<longrightarrow>
      map unstamped (fst (detectLatencySpikes h th w metrics windowSize)) =
        map (spike_record h (sort_key lm_timestamp metrics) windowSize)
          (filter (spike_flag th (sort_key lm_timestamp metrics) windowSize)
             [windowSize ..< length metrics]))
   \<and> (windowSize = 0 \<longrightarrow>
      (\<forall>i. zScore_at (sort_key lm_timestamp metrics) windowSize i = None))"
proof -
  have a: "length metrics < windowSize \<longrightarrow>
          fst (detectLatencySpikes h th w metrics windowSize) = []"
    by (simp add: detectLatencySpikes_def)
  have b: "windowSize \<le> length metrics \<longrightarrow>
          map unstamped (fst (detectLatencySpikes h th w metrics windowSize)) =
            map (spike_record h (sort_key lm_timestamp metrics) windowSize)
              (filter (spike_flag th (sort_key lm_timestamp metrics) windowSize)
                 [windowSize ..< length metrics])"
    by (simp add: spikes_unstamped)
  have c: "windowSize = 0 \<longrightarrow>
      (\<forall>i. zScore_at (sort_key lm_timestamp metrics) windowSize i = None)"
    by (simp add: zScore_at_def window_before_def window_mean_def js_div_def)
  from a b c show ?thesis by (simp only: simp_thms)
qed

theorem C6_latency_spikes_witness:
  "map an_severity (fst (detectLatencySpikes ex_host DEFAULT_THRESHOLDS (ex_world 0)
       [ex_latency ''b'' 2 200, ex_latency ''a'' 1 10, ex_latency ''c'' 3 200] 1))
     = [Critical, Low]
   \<and> fst (detectLatencySpikes ex_host DEFAULT_THRESHOLDS (ex_world 0)
       [ex_latency ''b'' 2 200, ex_latency ''a'' 1 10] 3) = []
   \<and> map (\<lambda>a. (an_timestamp a, an_severity a, threshold_value a))
       (fst (detectLatencySpikes ex_host DEFAULT_THRESHOLDS (ex_world 0)
          [ex_latency ''b'' 2 200, ex_latency ''a'' 1 10] 0))
     = [(2, Critical, None)]
   \<and> map (\<lambda>a. (an_timestamp a, an_severity a, metric_value a))
       (fst (detectLatencySpikes ex_host DEFAULT_THRESHOLDS (ex_world 0) ex_tenths 20))
     = [(21, Critical, b64 (2 / 10))]"
proof -
  let ?ms = "[ex_latency ''b'' 2 200, ex_latency ''a'' 1 10, ex_latency ''c'' 3 200]"
  let ?s = "[ex_latency ''a'' 1 10, ex_latency ''b'' 2 200, ex_latency ''c'' 3 200]"
  let ?m2 = "[ex_latency ''b'' 2 200, ex_latency ''a'' 1 10]"
  let ?s2 = "[ex_latency ''a'' 1 10, ex_latency ''b'' 2 200]"
  have s: "sort_key lm_timestamp ?ms = ?s" by (simp add: ex_latency_def)
  have s2: "sort_key lm_timestamp ?m2 = ?s2" by (simp add: ex_latency_def)
  have wb: "window_before ?s 1 1 = [10]" "window_before ?s 1 2 = [200]"
    by (simp_all add: window_before_def ex_latency_def)
  have c: "lm_latency_ms (?s ! 1) = 200" "lm_latency_ms (?s ! 2) = 200"
    by (simp_all add: ex_latency_def)
  have z: "zScore_at ?s 1 1 = Some 190" "zScore_at ?s 1 2 = Some 0"
    by (simp_all only: zScore_at_def wb c stats_single)
      (simp_all add: fsub_def fdiv_def b64_exact b64_0)
  have f: "spike_flag DEFAULT_THRESHOLDS ?s 1 1" "spike_flag DEFAULT_THRESHOLDS ?s 1 2"
    by (simp_all only: spike_flag_def z c) (simp_all add: DEFAULT_THRESHOLDS_def)
  have u: "[1..<3] = [1, 2::nat]" by (simp add: upt_rec)
  have sev: "an_severity (unstamped a) = an_severity a" for a by (simp add: unstamped_def)
  have len: "length ?ms = 3" by simp
  have sv: "an_severity (spike_record ex_host ?s 1 1) = Critical"
     "an_severity (spike_record ex_host ?s 1 2) = Low"
    by (simp_all only: spike_record_def z anomaly.simps) (simp_all add: calculateSeverity_def)
  have "map unstamped (fst (detectLatencySpikes ex_host DEFAULT_THRESHOLDS (ex_world 0) ?ms 1))
      = [spike_record ex_host ?s 1 1, spike_record ex_host ?s 1 2]"
    using C6_latency_spikes[of ?ms 1 ex_host DEFAULT_THRESHOLDS "ex_world 0"] f
    by (simp only: s u len) simp
  then have "map an_severity (map unstamped (fst (detectLatencySpikes ex_host DEFAULT_THRESHOLDS
      (ex_world 0) ?ms 1))) = [Critical, Low]"
    by (simp only: sv list.map)
  then have 1: "map an_severity (fst (detectLatencySpikes ex_host DEFAULT_THRESHOLDS
      (ex_world 0) ?ms 1)) = [Critical, Low]"
    by (simp only: map_map comp_def sev)
  have 2: "fst (detectLatencySpikes ex_host DEFAULT_THRESHOLDS (ex_world 0) ?m2 3) = []"
    using C6_latency_spikes[of ?m2 3 ex_host DEFAULT_THRESHOLDS "ex_world 0"]
    by simp
  note t0 = C6_latency_spikes[of ?m2 0 ex_host DEFAULT_THRESHOLDS "ex_world 0"]
  have z0: "zScore_at ?s2 0 i = None" for i
    using t0[THEN conjunct2, THEN conjunct2, unfolded s2] by simp
  have c0: "lm_latency_ms (?s2 ! 0) = 10" "lm_latency_ms (?s2 ! 1) = 200"
    by (simp_all add: ex_latency_def)
  have f0: "\<not> spike_flag DEFAULT_THRESHOLDS ?s2 0 0" "spike_flag DEFAULT_THRESHOLDS ?s2 0 1"
    by (simp_all only: spike_flag_def z0 c0) (simp_all add: DEFAULT_THRESHOLDS_def)
  have u0: "[0..<2] = [0, 1::nat]" by (simp add: upt_rec)
  have len0: "length ?m2 = 2" by simp
  have r0: "map unstamped (fst (detectLatencySpikes ex_host DEFAULT_THRESHOLDS (ex_world 0) ?m2 0))
      = [spike_record ex_host ?s2 0 1]"
    using t0 f0 by (simp only: s2 u0 len0) simp
  have v0: "an_timestamp (spike_record ex_host ?s2 0 1) = 2"
      "an_severity (spike_record ex_host ?s2 0 1) = Critical"
      "threshold_value (spike_record ex_host ?s2 0 1) = None"
  proof -
    show "an_timestamp (spike_record ex_host ?s2 0 1) = 2"
      by (simp add: spike_record_def ex_latency_def)
    show "an_severity (spike_record ex_host ?s2 0 1) = Critical"
      by (simp only: spike_record_def z0 anomaly.simps) simp
    show "threshold_value (spike_record ex_host ?s2 0 1) = None"
      by (simp add: spike_record_def window_before_def window_mean_def js_div_def
          spike_threshold_def)
  qed
  have p: "(an_timestamp (unstamped a), an_severity (unstamped a), threshold_value (unstamped a))
      = (an_timestamp a, an_severity a, threshold_value a)" for a
    by (simp add: unstamped_def)
  have "map (\<lambda>a. (an_timestamp a, an_severity a, threshold_value a))
      (map unstamped (fst (detectLatencySpikes ex_host DEFAULT_THRESHOLDS (ex_world 0) ?m2 0)))
      = [(2, Critical, None)]"
    by (simp only: r0 list.map v0)
  then have 3: "map (\<lambda>a. (an_timestamp a, an_severity a, threshold_value a))
      (fst (detectLatencySpikes ex_host DEFAULT_THRESHOLDS (ex_world 0) ?m2 0))
      = [(2, Critical, None)]"
    by (simp only: map_map comp_def p)
  have st: "sort_key lm_timestamp ex_tenths = ex_tenths"
    by (rule sort_key_id_if_sorted) (simp add: ex_tenths_def ex_latency_def upt_rec)
  have lt: "length ex_tenths = 21" by (simp add: ex_tenths_def)
  have ct: "lm_latency_ms (ex_tenths ! 20) = b64 (2 / 10)"
    "lm_timestamp (ex_tenths ! 20) = 21"
    by (simp_all add: ex_tenths_def ex_latency_def nth_append)
  have ft: "spike_flag DEFAULT_THRESHOLDS ex_tenths 20 20"
    by (simp only: spike_flag_def tenths_zScore) simp
  have ut: "[20..<21] = [20::nat]" by (simp add: upt_rec)
  have vt: "an_timestamp (spike_record ex_host ex_tenths 20 20) = 21"
      "an_severity (spike_record ex_host ex_tenths 20 20) = Critical"
      "metric_value (spike_record ex_host ex_tenths 20 20) = b64 (2 / 10)"
  proof -
    show "an_timestamp (spike_record ex_host ex_tenths 20 20) = 21"
      by (simp only: spike_record_def anomaly.simps ct)
    show "an_severity (spike_record ex_host ex_tenths 20 20) = Critical"
      by (simp only: spike_record_def tenths_zScore anomaly.simps)
        (simp add: calculateSeverity_def)
    show "metric_value (spike_record ex_host ex_tenths 20 20) = b64 (2 / 10)"
      by (simp only: spike_record_def anomaly.simps ct)
  qed
  have rt: "map unstamped (fst (detectLatencySpikes ex_host DEFAULT_THRESHOLDS (ex_world 0)
      ex_tenths 20)) = [spike_record ex_host ex_tenths 20 20]"
    using C6_latency_spikes[of ex_tenths 20 ex_host DEFAULT_THRESHOLDS "ex_world 0"] ft
    by (simp only: st ut lt) simp
  have pt: "(an_timestamp (unstamped a), an_severity (unstamped a), metric_value (unstamped a))
      = (an_timestamp a, an_severity a, metric_value a)" for a
    by (simp add: unstamped_def)
  have "map (\<lambda>a. (an_timestamp a, an_severity a, metric_value a))
      (map unstamped (fst (detectLatencySpikes ex_host DEFAULT_THRESHOLDS (ex_world 0)
         ex_tenths 20)))
      = [(21, Critical, b64 (2 / 10))]"
    by (simp only: rt list.map vt)
  then have 4: "map (\<lambda>a. (an_timestamp a, an_severity a, metric_value a))
      (fst (detectLatencySpikes ex_host DEFAULT_THRESHOLDS (ex_world 0) ex_tenths 20))
      = [(21, Critical, b64 (2 / 10))]"
    by (simp only: map_map comp_def pt)
  from 1 2 3 4 show ?thesis by (simp only: simp_thms)
qed

subsection \<open>Determinism of detection\<close>

lemma same_unstamped_refl: "same_unstamped ([], w) ([], w')"
  by (simp add: same_unstamped_def)

lemma foldl_same_unstamped:
  assumes step: "\<And>st st' x. same_unstamped st st' \<Longrightarrow> same_unstamped (f st x) (f st' x)"
    and "same_unstamped st st'"
  shows "same_unstamped (foldl f st xs) (foldl f st' xs)"
  using assms(2)
proof (induction xs arbitrary: st st')
  case Nil
  then show ?case by simp
next
  case (Cons x xs)
  from step[OF Cons.prems] have "same_unstamped (f st x) (f st' x)" .
  from Cons.IH[OF this] show ?case by simp
qed

lemma spike_step_same:
  "same_unstamped st st' \<Longrightarrow>
   same_unstamped (spike_step h th n srt st i) (spike_step h th n srt st' i)"
  by (simp add: same_unstamped_def spike_step_def unstamped_def fresh_id_def Date_now_def
      Math_random_def Let_def split_def)

lemma reject_window_step_same:
  "same_unstamped st st' \<Longrightarrow>
   same_unstamped (reject_window_step h th sid st e) (reject_window_step h th sid st' e)"
  by (simp add: same_unstamped_def reject_window_step_def unstamped_def fresh_id_def Date_now_def
      Math_random_def Let_def split_def)

lemma volume_window_step_same:
  "same_unstamped st st' \<Longrightarrow>
   same_unstamped (volume_window_step h th sid a st p) (volume_window_step h th sid a st' p)"
  by (simp add: same_unstamped_def volume_window_step_def unstamped_def fresh_id_def Date_now_def
      Math_random_def Let_def split_def)

lemma fillrate_window_step_same:
  "same_unstamped st st' \<Longrightarrow>
   same_unstamped (fillrate_window_step h th sid a st p) (fillrate_window_step h th sid a st' p)"
  by (simp add: same_unstamped_def fillrate_window_step_def unstamped_def fresh_id_def Date_now_def
      Math_random_def Let_def split_def)

lemma volume_strategy_step_same:
  "same_unstamped st st' \<Longrightarrow>
   same_unstamped (volume_strategy_step h th fills n st e) (volume_strategy_step h th fills n st' e)"
  unfolding volume_strategy_step_def Let_def
  by (auto intro: foldl_same_unstamped volume_window_step_same)

lemma fillrate_strategy_step_same:
  "same_unstamped st st' \<Longrightarrow>
   same_unstamped (fillrate_strategy_step h th fills cancels rejects n st sid)
     (fillrate_strategy_step h th fills cancels rejects n st' sid)"
  unfolding fillrate_strategy_step_def Let_def
  by (auto intro: foldl_same_unstamped fillrate_window_step_same)

lemma detectLatencySpikes_same:
  "same_unstamped (detectLatencySpikes h th w ms n) (detectLatencySpikes h th w' ms n)"
  unfolding detectLatencySpikes_def Let_def
  by (auto intro: foldl_same_unstamped spike_step_same same_unstamped_refl)

lemma detectHighRejectRate_same:
  "same_unstamped (detectHighRejectRate h th w fills cancels rejects n)
     (detectHighRejectRate h th w' fills cancels rejects n)"
  unfolding detectHighRejectRate_def Let_def
proof (rule foldl_same_unstamped[OF _ same_unstamped_refl])
  fix st st' :: "anomaly list \<times> world" and x :: "string \<times> (int \<times> reject_window) list"
  assume "same_unstamped st st'"
  then show "same_unstamped
      (case x of (strategyId, windows) \<Rightarrow> foldl (reject_window_step h th strategyId) st windows)
      (case x of (strategyId, windows) \<Rightarrow> foldl (reject_window_step h th strategyId) st' windows)"
    by (cases x) (auto intro: foldl_same_unstamped reject_window_step_same)
qed

lemma detectUnusualVolume_same:
  "same_unstamped (detectUnusualVolume h th w fills n) (detectUnusualVolume h th w' fills n)"
  unfolding detectUnusualVolume_def Let_def
  by (rule foldl_same_unstamped[OF volume_strategy_step_same same_unstamped_refl])

lemma detectFillRateDrop_same:
  "same_unstamped (detectFillRateDrop h th w fills cancels rejects n)
     (detectFillRateDrop h th w' fills cancels rejects n)"
  unfolding detectFillRateDrop_def Let_def
  by (rule foldl_same_unstamped[OF fillrate_strategy_step_same same_unstamped_refl])

lemma insort_key_map_commute:
  assumes "\<And>x. k (f x) = k x"
  shows "map f (insort_key k x xs) = insort_key k (f x) (map f xs)"
  by (induction xs) (simp_all add: assms)

lemma sort_key_map_commute:
  assumes "\<And>x. k (f x) = k x"
  shows "map f (sort_key k xs) = sort_key k (map f xs)"
  by (induction xs) (simp_all add: insort_key_map_commute[of k f, OF assms])

lemma detectAll_unstamped:
  "map unstamped (fst (detectAll h th w fills cancels rejects lat))
   = map unstamped (fst (detectAll h th w' fills cancels rejects lat))"
proof -
  have k: "- an_timestamp (unstamped a) = - an_timestamp a" for a
    by (simp add: unstamped_def)
  note c = sort_key_map_commute[of "\<lambda>a. - an_timestamp a" unstamped, OF k]
  obtain a1 w1 where d1: "detectLatencySpikes h th w lat 20 = (a1, w1)" by force
  obtain a2 w2 where d2: "detectHighRejectRate h th w1 fills cancels rejects 60 = (a2, w2)" by force
  obtain a3 w3 where d3: "detectUnusualVolume h th w2 fills 60 = (a3, w3)" by force
  obtain a4 w4 where d4: "detectFillRateDrop h th w3 fills cancels rejects 60 = (a4, w4)" by force
  obtain b1 v1 where e1: "detectLatencySpikes h th w' lat 20 = (b1, v1)" by force
  obtain b2 v2 where e2: "detectHighRejectRate h th v1 fills cancels rejects 60 = (b2, v2)" by force
  obtain b3 v3 where e3: "detectUnusualVolume h th v2 fills 60 = (b3, v3)" by force
  obtain b4 v4 where e4: "detectFillRateDrop h th v3 fills cancels rejects 60 = (b4, v4)" by force
  have 1: "map unstamped a1 = map unstamped b1"
    using detectLatencySpikes_same[of h th w lat 20 w'] by (simp add: same_unstamped_def d1 e1)
  have 2: "map unstamped a2 = map unstamped b2"
    using detectHighRejectRate_same[of h th w1 fills cancels rejects 60 v1]
    by (simp add: same_unstamped_def d2 e2)
  have 3: "map unstamped a3 = map unstamped b3"
    using detectUnusualVolume_same[of h th w2 fills 60 v2] by (simp add: same_unstamped_def d3 e3)
  have 4: "map unstamped a4 = map unstamped b4"
    using detectFillRateDrop_same[of h th w3 fills cancels rejects 60 v3]
    by (simp add: same_unstamped_def d4 e4)
  show ?thesis
    by (simp add: detectAll_def d1 d2 d3 d4 e1 e2 e3 e4 c 1 2 3 4)
qed

lemma addToWindow_first:
  "addToWindow 60 [] (s, t, Reject_event) =
     [(s, [(windowKey 60 t, \<lparr>win_fills = 0, win_cancels = 0, win_rejects = 1,
                              win_timestamp = windowStart 60 (windowKey 60 t)\<rparr>)])]"
  by (simp add: addToWindow_def map_has_def map_get_def Let_def)

lemma addToWindow_again:
  "windowKey 60 t = k \<Longrightarrow>
   addToWindow 60 [(s, [(k, win)])] (s, t, Reject_event) =
     [(s, [(k, win\<lparr>win_rejects := win_rejects win + 1\<rparr>)])]"
  by (simp add: addToWindow_def map_has_def map_get_def Let_def)

lemma ex_windows:
  "foldl (addToWindow 60) []
     (map (\<lambda>r. (reject_strategy_id r, reject_timestamp r, Reject_event)) ex_rejects)
   = [(''S1'', [(0, \<lparr>win_fills = 0, win_cancels = 0, win_rejects = 5, win_timestamp = 0\<rparr>)])]"
proof -
  have k: "windowKey 60 1000 = 0" "windowKey 60 2000 = 0" "windowKey 60 3000 = 0"
    "windowKey 60 4000 = 0" "windowKey 60 5000 = 0" "windowStart 60 0 = 0"
    by (simp_all add: windowKey_def windowStart_def)
  have m: "map (\<lambda>r. (reject_strategy_id r, reject_timestamp r, Reject_event)) ex_rejects
      = [(''S1'', 1000, Reject_event), (''S1'', 2000, Reject_event), (''S1'', 3000, Reject_event),
         (''S1'', 4000, Reject_event), (''S1'', 5000, Reject_event)]"
    by (simp add: ex_rejects_def ex_reject_def)
  show ?thesis
    unfolding m
    by (simp add: addToWindow_first addToWindow_again k)
qed

lemma b64_below_one:
  assumes "0 \<le> x" and "x \<le> 1 / 2"
  shows "b64 x < 1"
proof -
  have "\<bar>b64 x - x\<bar> \<le> 1 / 2 ^ 54" using assms by (intro b64_unit_error) simp_all
  moreover have "(1::real) / 2 ^ 54 < 1 / 2" by simp
  ultimately show ?thesis using assms by linarith
qed

lemma ex_reject_step:
  "fst (reject_window_step ex_host DEFAULT_THRESHOLDS ''S1'' ([], ex_world t)
     (0, \<lparr>win_fills = 0, win_cancels = 0, win_rejects = 5, win_timestamp = 0\<rparr>)) =
     [\<lparr>an_id = ''anomaly-reject-n-r'', an_timestamp = 0, an_strategy_id = ''S1'',
       an_type = High_reject_rate, an_severity = Critical,
       an_description = ''High reject rate detected: n% (n/n orders)'',
       metric_value = 1, threshold_value = Some (b64 (15 / 100)), detected_at = t\<rparr>]"
  using b64_below_one[of "1 / 10"] b64_below_one[of "3 / 20"] b64_below_one[of "1 / 4"]
    b64_dyadic[of 1 0]
  by (simp add: reject_window_step_def fresh_id_def
        Date_now_def Math_random_def random_suffix_def ex_host_def ex_world_def
        DEFAULT_THRESHOLDS_def calculateSeverity_def Let_def fdiv_def)

lemma ex_detectAll:
  "fst (detectAll ex_host DEFAULT_THRESHOLDS (ex_world t) [] [] ex_rejects []) =
     [\<lparr>an_id = ''anomaly-reject-n-r'', an_timestamp = 0, an_strategy_id = ''S1'',
       an_type = High_reject_rate, an_severity = Critical,
       an_description = ''High reject rate detected: n% (n/n orders)'',
       metric_value = 1, threshold_value = Some (b64 (15 / 100)), detected_at = t\<rparr>]"
proof -
  have 1: "detectLatencySpikes ex_host DEFAULT_THRESHOLDS (ex_world t) [] 20 = ([], ex_world t)"
    by (simp add: detectLatencySpikes_def)
  have 3: "detectUnusualVolume ex_host DEFAULT_THRESHOLDS w [] 60 = ([], w)" for w
    by (simp add: detectUnusualVolume_def)
  have 4: "detectFillRateDrop ex_host DEFAULT_THRESHOLDS w [] [] ex_rejects 60 = ([], w)" for w
    by (simp add: detectFillRateDrop_def new_Set_def)
  have 2: "fst (detectHighRejectRate ex_host DEFAULT_THRESHOLDS (ex_world t) [] [] ex_rejects 60) =
     [\<lparr>an_id = ''anomaly-reject-n-r'', an_timestamp = 0, an_strategy_id = ''S1'',
       an_type = High_reject_rate, an_severity = Critical,
       an_description = ''High reject rate detected: n% (n/n orders)'',
       metric_value = 1, threshold_value = Some (b64 (15 / 100)), detected_at = t\<rparr>]"
    unfolding detectHighRejectRate_def Let_def list.map foldl_Nil ex_windows
    by (simp add: ex_reject_step)
  show ?thesis
    using 2 by (simp add: detectAll_def 1 3 4 split_def)
qed

text \<open>
  C7, as stated, fails: every anomaly carries an identifier made of the clock and a random
  number, and the instant of its detection. Two calls on the same five rejects, one at
  instant 1000 and one at instant 2000, return records that differ.
\<close>

theorem C7_detectAll_counterexample:
  "fst (detectAll ex_host DEFAULT_THRESHOLDS (ex_world 1000) [] [] ex_rejects [])
   \<noteq> fst (detectAll ex_host DEFAULT_THRESHOLDS (ex_world 2000) [] [] ex_rejects [])"
  by (simp add: ex_detectAll)

text \<open>
  C7, amended. Two calls of \<open>detectAll\<close> on identical input event sets yield anomaly lists
  that agree, record by record and in the same order (latest timestamp first), on every
  field but \<open>id\<close> and \<open>detected_at\<close>, which are taken from the clock and the random
  generator at the time of the call.
\<close>

theorem C7_detectAll_same_up_to_stamps:
  "map unstamped (fst (detectAll h th w fills cancels rejects lat))
     = map unstamped (fst (detectAll h th w' fills cancels rejects lat))
   \<and> sorted (map (\<lambda>a. - an_timestamp a) (fst (detectAll h th w fills cancels rejects lat)))"
proof -
  have "sorted (map (\<lambda>a. - an_timestamp a) (fst (detectAll h th w fills cancels rejects lat)))"
    by (simp add: detectAll_def split_def Let_def sorted_sort_key)
  with detectAll_unstamped[of h th w fills cancels rejects lat w'] show ?thesis ..
qed

theorem C7_detectAll_same_up_to_stamps_witness:
  "map unstamped (fst (detectAll ex_host DEFAULT_THRESHOLDS (ex_world 1000) [] [] ex_rejects []))
     = map unstamped (fst (detectAll ex_host DEFAULT_THRESHOLDS (ex_world 2000) [] [] ex_rejects []))
   \<and> map an_type (fst (detectAll ex_host DEFAULT_THRESHOLDS (ex_world 1000) [] [] ex_rejects []))
     = [High_reject_rate]"
  using C7_detectAll_same_up_to_stamps[of ex_host DEFAULT_THRESHOLDS "ex_world 1000" "[]" "[]"
      ex_rejects "[]" "ex_world 2000"]
  by (simp add: ex_detectAll)

end
